theory Spec2Isabelle
  imports Main
begin

section \<open>Strings as Python handles them\<close>

text \<open>
  A Python string is modelled by its UTF-8 encoding, a list of bytes. Joining strings,
  removing the double quote and looking for an ASCII word act on the bytes as they act on
  the characters. \<^verbatim>\<open>str.strip\<close> and \<^verbatim>\<open>int\<close> look at characters, so the bytes are
  grouped into characters and each group is read as its code point. The tables of
  whitespace and of decimal digits are those of Unicode 14.0, which Python 3.11 uses.
  \<^verbatim>\<open>lower\<close> folds A to Z only: Python lowers no character outside ASCII to one of the
  letters of \<^verbatim>\<open>true\<close>, so the membership test below is decided as Python decides it.
\<close>

text \<open>The characters for which \<^verbatim>\<open>str.isspace\<close> holds, by code point: 29 in all.\<close>

definition is_space :: "nat \<Rightarrow> bool" where
  "is_space n =
     ((9 \<le> n \<and> n \<le> 13) \<or> (28 \<le> n \<and> n \<le> 32) \<or> n = 0x85 \<or> n = 0xA0 \<or> n = 0x1680 \<or>
      (0x2000 \<le> n \<and> n \<le> 0x200A) \<or> n = 0x2028 \<or> n = 0x2029 \<or> n = 0x202F \<or>
      n = 0x205F \<or> n = 0x3000)"

text \<open>
  The number of bytes of the character that a byte begins. A byte that begins no
  character (it cannot occur in the encoding of a string) is taken on its own.
\<close>

definition utf8_width :: "char \<Rightarrow> nat" where
  "utf8_width c =
     (let n = (of_char c :: nat) in
      if n < 0x80 then 1
      else if 0xC0 \<le> n \<and> n < 0xE0 then 2
      else if 0xE0 \<le> n \<and> n < 0xF0 then 3
      else if 0xF0 \<le> n \<and> n < 0xF8 then 4
      else 1)"

fun utf8_chars :: "string \<Rightarrow> string list" where
  "utf8_chars [] = []"
| "utf8_chars (c # cs) =
     (c # take (utf8_width c - 1) cs) # utf8_chars (drop (utf8_width c - 1) cs)"

fun code_point :: "string \<Rightarrow> nat" where
  "code_point [a] = of_char a"
| "code_point [a, b] = (of_char a mod 32) * 64 + of_char b mod 64"
| "code_point [a, b, c] = (of_char a mod 16) * 4096 + (of_char b mod 64) * 64 + of_char c mod 64"
| "code_point [a, b, c, d] =
     (of_char a mod 8) * 262144 + (of_char b mod 64) * 4096 + (of_char c mod 64) * 64 +
     of_char d mod 64"
| "code_point ch = 0"

definition space_char :: "string \<Rightarrow> bool" where
  "space_char ch = is_space (code_point ch)"

text \<open>Python's \<^verbatim>\<open>s.strip()\<close>: whitespace characters are dropped at both ends.\<close>

definition strip :: "string \<Rightarrow> string" where
  "strip s = concat (rev (dropWhile space_char (rev (dropWhile space_char (utf8_chars s)))))"

definition lower_char :: "char \<Rightarrow> char" where
  "lower_char c = (let n = (of_char c :: nat) in if 65 \<le> n \<and> n \<le> 90 then char_of (n + 32) else c)"

definition lower :: "string \<Rightarrow> string" where
  "lower s = map lower_char s"

fun starts_with :: "string \<Rightarrow> string \<Rightarrow> bool" where
  "starts_with [] s = True"
| "starts_with (p # ps) [] = False"
| "starts_with (p # ps) (c # cs) = (p = c \<and> starts_with ps cs)"

text \<open>Python's \<^verbatim>\<open>sub in s\<close> on strings: \<open>sub\<close> occurs somewhere in \<open>s\<close>.\<close>

fun str_in :: "string \<Rightarrow> string \<Rightarrow> bool" where
  "str_in sub [] = (sub = [])"
| "str_in sub (c # cs) = (starts_with sub (c # cs) \<or> str_in sub cs)"

text \<open>Python's \<^verbatim>\<open>s.replace('"', '')\<close>.\<close>

definition remove_double_quotes :: "string \<Rightarrow> string" where
  "remove_double_quotes s = filter (\<lambda>c. c \<noteq> CHR 0x22) s"

subsection \<open>Reading an integer\<close>

text \<open>
  The code points of the digit zero of every script with decimal digits, ASCII apart: the
  ten digits of a script follow each other from its zero.
\<close>

definition decimal_zeros :: "nat list" where
  "decimal_zeros =
     [0x660, 0x6F0, 0x7C0, 0x966, 0x9E6, 0xA66, 0xAE6, 0xB66, 0xBE6, 0xC66, 0xCE6, 0xD66,
      0xDE6, 0xE50, 0xED0, 0xF20, 0x1040, 0x1090, 0x17E0, 0x1810, 0x1946, 0x19D0, 0x1A80,
      0x1A90, 0x1B50, 0x1BB0, 0x1C40, 0x1C50, 0xA620, 0xA8D0, 0xA900, 0xA9D0, 0xA9F0, 0xAA50,
      0xABF0, 0xFF10, 0x104A0, 0x10D30, 0x11066, 0x110F0, 0x11136, 0x111D0, 0x112F0, 0x11450,
      0x114D0, 0x11650, 0x116C0, 0x11730, 0x118E0, 0x11950, 0x11C50, 0x11D50, 0x11DA0,
      0x16A60, 0x16AC0, 0x16B50, 0x1D7CE, 0x1D7D8, 0x1D7E2, 0x1D7EC, 0x1D7F6, 0x1E140,
      0x1E2F0, 0x1E950, 0x1FBF0]"

definition unicode_decimal :: "nat \<Rightarrow> nat option" where
  "unicode_decimal n =
     (case find (\<lambda>z. z \<le> n \<and> n < z + 10) decimal_zeros of
        None \<Rightarrow> None
      | Some z \<Rightarrow> Some (n - z))"

text \<open>
  What \<^verbatim>\<open>int\<close> makes of one character before it parses: an ASCII character stays, a
  whitespace character outside ASCII becomes a space, a decimal digit outside ASCII
  becomes its ASCII digit, and any other character cannot be read (\<open>None\<close>).
\<close>

definition ascii_of :: "string \<Rightarrow> char option" where
  "ascii_of ch =
     (let n = code_point ch in
      if n < 127 then (case ch of [a] \<Rightarrow> Some a | _ \<Rightarrow> None)
      else if is_space n then Some (CHR '' '')
      else map_option (\<lambda>d. char_of (48 + d)) (unicode_decimal n))"

fun to_ascii :: "string list \<Rightarrow> string option" where
  "to_ascii [] = Some []"
| "to_ascii (ch # chs) =
     (case ascii_of ch of
        None \<Rightarrow> None
      | Some c \<Rightarrow> map_option ((#) c) (to_ascii chs))"

text \<open>The whitespace the parser skips around the literal: C's \<^verbatim>\<open>isspace\<close>.\<close>

definition c_space :: "char \<Rightarrow> bool" where
  "c_space c = (let n = (of_char c :: nat) in (9 \<le> n \<and> n \<le> 13) \<or> n = 32)"

definition digit_val :: "char \<Rightarrow> nat option" where
  "digit_val c = (let n = (of_char c :: nat) in if 48 \<le> n \<and> n \<le> 57 then Some (n - 48) else None)"

text \<open>
  The digits of a decimal literal after its first digit: single underscores are allowed
  between digits, as in \<^verbatim>\<open>int("1_000")\<close>.
\<close>

fun digits_acc :: "nat \<Rightarrow> string \<Rightarrow> nat option" where
  "digits_acc acc [] = Some acc"
| "digits_acc acc (c # cs) =
     (if c = CHR ''_'' then
        (case cs of
           [] \<Rightarrow> None
         | d # ds \<Rightarrow> (case digit_val d of None \<Rightarrow> None | Some v \<Rightarrow> digits_acc (10 * acc + v) ds))
      else (case digit_val c of None \<Rightarrow> None | Some v \<Rightarrow> digits_acc (10 * acc + v) cs))"

text \<open>The interpreter's default limit on the number of digits of a literal.\<close>

definition int_max_str_digits :: nat where
  "int_max_str_digits = 4300"

definition unsigned_literal :: "string \<Rightarrow> nat option" where
  "unsigned_literal s =
     (if length (filter (\<lambda>c. digit_val c \<noteq> None) s) > int_max_str_digits then None
      else
        (case s of
           [] \<Rightarrow> None
         | d # ds \<Rightarrow> (case digit_val d of None \<Rightarrow> None | Some v \<Rightarrow> digits_acc v ds)))"

text \<open>
  Python's \<^verbatim>\<open>int(s)\<close> on a string: the characters are brought to ASCII, whitespace
  around the literal is skipped, one sign is allowed, and anything else than a decimal
  literal within the digit limit raises \<^verbatim>\<open>ValueError\<close> (\<open>None\<close> here).
\<close>

definition py_int :: "string \<Rightarrow> int option" where
  "py_int s =
     (case to_ascii (utf8_chars s) of
        None \<Rightarrow> None
      | Some t \<Rightarrow>
          (case rev (dropWhile c_space (rev (dropWhile c_space t))) of
             [] \<Rightarrow> None
           | c # cs \<Rightarrow>
               if c = CHR ''-'' then map_option (\<lambda>n. - int n) (unsigned_literal cs)
               else if c = CHR ''+'' then map_option int (unsigned_literal cs)
               else map_option int (unsigned_literal (c # cs))))"

section \<open>Data model\<close>

text \<open>An operation either raises an exception or returns a value.\<close>

datatype 'a outcome = Raises | Returns 'a

record message =
  role :: string
  content :: string

text \<open>
  One entry of the list \<^verbatim>\<open>search_duckduckgo\<close> returns: the dictionary with the keys
  \<^verbatim>\<open>id\<close>, \<^verbatim>\<open>link\<close> and \<^verbatim>\<open>search_description\<close>.
\<close>

record search_result =
  result_id :: nat
  link :: string
  search_description :: string

text \<open>
  What the HTML parser finds in one \<^verbatim>\<open>div.result\<close> block: the title anchor
  \<^verbatim>\<open>a.result__a\<close>, if there is one, with its \<^verbatim>\<open>href\<close> attribute, if it has one,
  and the text of the snippet anchor \<^verbatim>\<open>a.result__snippet\<close>, if there is one.
\<close>

record a_tag =
  href :: "string option"

record result_div =
  title_tag :: "a_tag option"
  snippet_tag :: "string option"

text \<open>The calls that leave the process, recorded in the order they are made.\<close>

datatype call =
    Chat "message list"
  | Chat_stream "message list"
  | Http_get string
  | Fetch_url string

text \<open>The messages the module's logger writes (the text of a caught exception is left out).\<close>

datatype log_entry =
    Info_search_decision string
  | Error_in_search_decision
  | Error_generating_query
  | Info_found_search_results nat
  | Error_in_duckduckgo_search
  | Error_selecting_best_result nat
  | Error_failed_to_scrape string
  | Info_starting_search_process
  | Warning_no_search_results_found
  | Warning_invalid_result_index int
  | Info_found_relevant_content
  | Warning_could_not_find_relevant_content nat
  | Error_in_search_process
  | Error_validating_content
  | Error_streaming_response

text \<open>
  The world outside the conversation: the calls made so far, the log written so far, and a
  ghost counter of the entries into \<^verbatim>\<open>best_search_results\<close>. Output printed on the
  terminal is not modelled.
\<close>

record world =
  calls :: "call list"
  logged :: "log_entry list"
  selections :: nat

text \<open>
  The external capabilities. Each answer may depend on every call made before it.
  \<open>chat\<close> is \<^verbatim>\<open>ollama.chat\<close> followed by the read of
  \<^verbatim>\<open>response['message']['content']\<close>; \<open>chat_stream\<close> is the streamed variant with the
  chunks it yields; \<open>http_get\<close> is \<^verbatim>\<open>requests.get\<close>, \<^verbatim>\<open>raise_for_status\<close> and the
  parse into result blocks; \<open>fetch_url\<close> and \<open>extract_text\<close> are the two calls into
  the scraping library; \<open>repr_results\<close> is Python's rendering of the result list inside an
  f-string.
\<close>

record env =
  chat :: "call list \<Rightarrow> message list \<Rightarrow> string outcome"
  chat_stream :: "call list \<Rightarrow> message list \<Rightarrow> string list outcome"
  http_get :: "call list \<Rightarrow> string \<Rightarrow> result_div list outcome"
  fetch_url :: "call list \<Rightarrow> string \<Rightarrow> string option outcome"
  extract_text :: "string \<Rightarrow> string option outcome"
  repr_results :: "search_result list \<Rightarrow> string"

definition add_log :: "log_entry \<Rightarrow> world \<Rightarrow> world" where
  "add_log e w = w\<lparr>logged := logged w @ [e]\<rparr>"

definition add_call :: "call \<Rightarrow> world \<Rightarrow> world" where
  "add_call c w = w\<lparr>calls := calls w @ [c]\<rparr>"

definition do_chat :: "env \<Rightarrow> message list \<Rightarrow> world \<Rightarrow> string outcome \<times> world" where
  "do_chat e msgs w = (chat e (calls w) msgs, add_call (Chat msgs) w)"

definition user_message :: "string \<Rightarrow> message" where
  "user_message text = \<lparr>role = ''user'', content = text\<rparr>"

text \<open>\<^verbatim>\<open>assistant_convo[-1]['content']\<close>; an empty conversation raises \<^verbatim>\<open>IndexError\<close>.\<close>

definition last_content :: "message list \<Rightarrow> string outcome" where
  "last_content convo = (if convo = [] then Raises else Returns (content (last convo)))"

section \<open>System messages\<close>

definition assistant_agent :: message where
  "assistant_agent = \<lparr>role = ''system'', content =
     ''You are an AI assistant that helps users by analyzing search results and user queries. When a user asks '' @
     ''a question, search results will be provided before their message. Your task is to carefully analyze both '' @
     ''the search results and the user'' @ [CHR 0x27] @ ''s question, extracting relevant information to provide comprehensive, '' @
     ''accurate and intelligent responses. Focus on delivering high-quality answers that combine the search data '' @
     ''with clear explanations. Be precise, helpful, and aim to exceed user expectations with every response.''\<rparr>"

definition should_search_decision_agent :: message where
  "should_search_decision_agent = \<lparr>role = ''system'', content =
     ''You are a decision-making system. Your task is to analyze the last user message in a conversation '' @
     ''and determine if searching Google would help provide a better response. Evaluate if: 1) The existing '' @
     ''conversation already contains sufficient context, or 2) A Google search would not meaningfully improve '' @
     ''the response quality. Respond only with '' @ [CHR 0x22] @ ''True'' @ [CHR 0x22] @
     '' if a Google search would be helpful and '' @ [CHR 0x22] @ ''False'' @ [CHR 0x22] @ '' if it '' @
     ''would not. Do not provide any explanation - only output '' @ [CHR 0x22] @ ''True'' @ [CHR 0x22] @
     '' or '' @ [CHR 0x22] @ ''False'' @ [CHR 0x22] @ ''. Base your decision on '' @
     ''whether a knowledgeable human would need to search online to properly address the query.''\<rparr>"

definition search_query_generator_agent :: message where
  "search_query_generator_agent = \<lparr>role = ''system'', content =
     ''You are a search query generator optimized for DuckDuckGo searches. Your task is to analyze user questions '' @
     ''and generate highly effective search queries. When given a user question, create a search query that will '' @
     ''maximize relevant results on DuckDuckGo. Use DuckDuckGo'' @ [CHR 0x27] @ ''s search syntax including: \<newline>'' @
     ''- Double quotes ('' @ [CHR 0x22, CHR 0x22] @ '') for exact phrase matches\<newline>'' @
     ''- site: operator to restrict to specific domains\<newline>'' @
     ''- intitle: to search page titles\<newline>'' @
     ''- filetype: for specific file types\<newline>'' @
     ''Keep queries focused and under 100 characters. Remove unnecessary words. Include key technical terms. '' @
     ''Prioritize authoritative sources. Generate only the optimized query string - no explanations or additional '' @
     ''text. The query will be used directly in DuckDuckGo'' @ [CHR 0x27] @ ''s search URL.''\<rparr>"

definition best_search_result_selector_agent :: message where
  "best_search_result_selector_agent = \<lparr>role = ''system'', content =
     ''You are not an AI assistant that responds to a user. You are an AI model trained to select the best '' @
     ''search result out of a list of ten results. The best search result is the link an expert human search '' @
     ''engine user would click first to find the data to respond to a USER_PROMPT after searching DuckDuckGo '' @
     ''for the SEARCH_QUERY. \<newline>All user messages you receive in this conversation will have the format of: \<newline>'' @
     ''    SEARCH_RESULTS: [{},{},{}] \<newline>'' @
     ''    USER_PROMPT: '' @ [CHR 0x22] @ ''this will be an actual prompt to a web search enabled AI assistant'' @ [CHR 0x22] @ '' \<newline>'' @
     ''    SEARCH_QUERY: '' @ [CHR 0x22] @ ''search query ran to get the above 10 links'' @ [CHR 0x22] @ '' \<newline>\<newline>'' @
     ''You must select the index from the 0 indexed SEARCH_RESULTS list and only respond with the index of '' @
     ''the best search result to check for the data the AI assistant needs to respond. That means your responses '' @
     ''to this conversation should always be 1 token, being and integer between 0-9.''\<rparr>"

definition page_content_validator_agent :: message where
  "page_content_validator_agent = \<lparr>role = ''system'', content =
     ''You are not an AI assistant that responds to a user. You are an AI model designed to analyze data scraped '' @
     ''from a web pages text to assist an actual AI assistant in responding correctly with up to date information. '' @
     ''Consider the USER_PROMPT that was sent to the actual AI assistant & analyze the web PAGE_TEXT to see if '' @
     ''it does contain the data needed to construct an intelligent, correct response. This web PAGE_TEXT was '' @
     ''retrieved from a search engine using the SEARCH_QUERY that is also attached to user messages in this '' @
     ''conversation. All user messages in this conversation will have the format of: \<newline>'' @
     ''    PAGE_TEXT: '' @ [CHR 0x22] @ ''entire page text from the best search result based off the search snippet.'' @ [CHR 0x22] @ '' \<newline>'' @
     ''    USER_PROMPT: '' @ [CHR 0x22] @ ''the prompt sent to an actual web search enabled AI assistant.'' @ [CHR 0x22] @ '' \<newline>'' @
     ''    SEARCH_QUERY: '' @ [CHR 0x22] @ ''the search query that was used to find data determined necessary for the assistant to '' @
     ''respond correctly and usefully.'' @ [CHR 0x22] @ '' \<newline>'' @
     ''You must determine whether the PAGE_TEXT actually contains reliable and necessary data for the AI assistant '' @
     ''to respond. You only have two possible responses to user messages in this conversation: '' @ [CHR 0x22] @ ''True'' @ [CHR 0x22] @
     '' or '' @ [CHR 0x22] @ ''False'' @ [CHR 0x22] @ ''. '' @
     ''You never generate more than one token and it is always either '' @ [CHR 0x22] @ ''True'' @ [CHR 0x22] @
     '' or '' @ [CHR 0x22] @ ''False'' @ [CHR 0x22] @ '' with True indicating that '' @
     ''page text does indeed contain the reliable data for the AI assistant to use as context to respond. Respond '' @
     [CHR 0x22] @ ''False'' @ [CHR 0x22] @ '' if the PAGE_TEXT is not useful to answering the USER_PROMPT.''\<rparr>"

text \<open>\<^verbatim>\<open>SEARCH_FAILURE_PROMPT_TEMPLATE.format(prompt=prompt)\<close>.\<close>

definition search_failure_prompt :: "string \<Rightarrow> string" where
  "search_failure_prompt prompt =
     ''USER PROMPT: \<newline>'' @ prompt @ '' \<newline>\<newline>FAILED SEARCH: \<newline>The '' @
     ''AI search model was unable to extract any reliable data. Explain that '' @
     ''and ask if the user would like you to search again or respond '' @
     ''without web search context. Do not respond if a search was needed '' @
     ''and you are getting this message with anything but the above request '' @
     ''of how the user would like to proceed''"

section \<open>Selecting the best search result\<close>

text \<open>
  The three tries of \<^verbatim>\<open>best_search_results\<close>: a failed call and a reply that
  \<^verbatim>\<open>int\<close> rejects are logged and followed by the next try; the first reply that parses
  is returned after \<^verbatim>\<open>min(index, len(s_results) - 1)\<close>; after the last try the result
  is 0.
\<close>

fun select_tries :: "env \<Rightarrow> message list \<Rightarrow> nat \<Rightarrow> nat list \<Rightarrow> world \<Rightarrow> int \<times> world" where
  "select_tries e msgs len [] w = (0, w)"
| "select_tries e msgs len (attempt # rest) w =
     (case do_chat e msgs w of
        (Raises, w1) \<Rightarrow>
          select_tries e msgs len rest (add_log (Error_selecting_best_result (attempt + 1)) w1)
      | (Returns reply, w1) \<Rightarrow>
          (case py_int reply of
             None \<Rightarrow>
               select_tries e msgs len rest (add_log (Error_selecting_best_result (attempt + 1)) w1)
           | Some index \<Rightarrow> (min index (int len - 1), w1)))"

definition best_msg :: "env \<Rightarrow> search_result list \<Rightarrow> string \<Rightarrow> string \<Rightarrow> string" where
  "best_msg e s_results user_prompt query =
     ''SEARCH_RESULTS: '' @ repr_results e s_results @ '' \<newline>USER_PROMPT: '' @ user_prompt @
     '' \<newline>SEARCH_QUERY: '' @ query"

definition best_search_results ::
    "env \<Rightarrow> message list \<Rightarrow> search_result list \<Rightarrow> string \<Rightarrow> world \<Rightarrow> int outcome \<times> world" where
  "best_search_results e convo s_results query w =
     (let w0 = w\<lparr>selections := Suc (selections w)\<rparr> in
      if s_results = [] then (Returns 0, w0)
      else
        (case last_content convo of
           Raises \<Rightarrow> (Raises, w0)
         | Returns user_prompt \<Rightarrow>
             (case select_tries e
                     [best_search_result_selector_agent,
                      user_message (best_msg e s_results user_prompt query)]
                     (length s_results) [0..<3] w0 of
                (index, w1) \<Rightarrow> (Returns index, w1))))"

section \<open>The two yes/no judgements and the query generator\<close>

definition check_search_or_not :: "env \<Rightarrow> message list \<Rightarrow> world \<Rightarrow> bool \<times> world" where
  "check_search_or_not e convo w =
     (case last_content convo of
        Raises \<Rightarrow> (False, add_log Error_in_search_decision w)
      | Returns user_prompt \<Rightarrow>
          (case do_chat e [should_search_decision_agent, user_message user_prompt] w of
             (Raises, w1) \<Rightarrow> (False, add_log Error_in_search_decision w1)
           | (Returns reply, w1) \<Rightarrow>
               (str_in ''true'' (lower reply), add_log (Info_search_decision reply) w1)))"

text \<open>
  \<^verbatim>\<open>query_generator\<close> builds its message outside the \<^verbatim>\<open>try\<close>, so an empty
  conversation raises; a failed call returns the last message's content.
\<close>

definition query_generator :: "env \<Rightarrow> message list \<Rightarrow> world \<Rightarrow> string outcome \<times> world" where
  "query_generator e convo w =
     (case last_content convo of
        Raises \<Rightarrow> (Raises, w)
      | Returns user_prompt \<Rightarrow>
          (let query = ''CREATE A SEARCH QUERY FOR THE FOLLOWING QUESTION: \<newline>'' @ user_prompt in
           case do_chat e [search_query_generator_agent, user_message query] w of
             (Raises, w1) \<Rightarrow> (Returns user_prompt, add_log Error_generating_query w1)
           | (Returns reply, w1) \<Rightarrow> (Returns reply, w1)))"

definition page_content_msg :: "string \<Rightarrow> string \<Rightarrow> string \<Rightarrow> string" where
  "page_content_msg search_content user_prompt query =
     ''PAGE_TEXT: '' @ search_content @ '' \<newline>USER_PROMPT: '' @ user_prompt @
     '' \<newline>SEARCH_QUERY: '' @ query"

definition contain_data_needed ::
    "env \<Rightarrow> message list \<Rightarrow> string \<Rightarrow> string \<Rightarrow> world \<Rightarrow> bool outcome \<times> world" where
  "contain_data_needed e convo search_content query w =
     (case last_content convo of
        Raises \<Rightarrow> (Raises, w)
      | Returns user_prompt \<Rightarrow>
          (case do_chat e [page_content_validator_agent,
                           user_message (page_content_msg search_content user_prompt query)] w of
             (Raises, w1) \<Rightarrow> (Returns False, add_log Error_validating_content w1)
           | (Returns reply, w1) \<Rightarrow> (Returns (str_in ''true'' (lower reply)), w1)))"

section \<open>Searching and scraping\<close>

text \<open>
  The loop of \<^verbatim>\<open>search_duckduckgo\<close> over \<^verbatim>\<open>enumerate(soup.find_all(...))\<close>: \<open>i\<close> is
  the position of the block among all blocks found. A block without title anchor is
  passed over; a title anchor without \<^verbatim>\<open>href\<close> raises \<^verbatim>\<open>KeyError\<close>.
\<close>

definition result_entry :: "nat \<Rightarrow> string \<Rightarrow> result_div \<Rightarrow> search_result" where
  "result_entry i l result =
     \<lparr>result_id = i, link = l,
      search_description =
        (case snippet_tag result of
           Some text \<Rightarrow> strip text
         | None \<Rightarrow> ''No description available'')\<rparr>"

fun scan_divs :: "nat \<Rightarrow> result_div list \<Rightarrow> search_result list \<Rightarrow> search_result list outcome" where
  "scan_divs i [] results = Returns results"
| "scan_divs i (result # rest) results =
     (if i \<ge> 10 then Returns results
      else
        (case title_tag result of
           None \<Rightarrow> scan_divs (Suc i) rest results
         | Some t \<Rightarrow>
             (case href t of
                None \<Rightarrow> Raises
              | Some l \<Rightarrow> scan_divs (Suc i) rest (results @ [result_entry i l result]))))"

definition search_duckduckgo :: "env \<Rightarrow> string \<Rightarrow> world \<Rightarrow> search_result list \<times> world" where
  "search_duckduckgo e search_query w =
     (let url = ''https://duckduckgo.com/html/?q='' @ search_query;
          w1 = add_call (Http_get url) w in
      case http_get e (calls w) url of
        Raises \<Rightarrow> ([], add_log Error_in_duckduckgo_search w1)
      | Returns divs \<Rightarrow>
          (case scan_divs 0 divs [] of
             Raises \<Rightarrow> ([], add_log Error_in_duckduckgo_search w1)
           | Returns results \<Rightarrow> (results, add_log (Info_found_search_results (length results)) w1)))"

definition scrape_page :: "env \<Rightarrow> string \<Rightarrow> world \<Rightarrow> string option \<times> world" where
  "scrape_page e page_link w =
     (let w1 = add_call (Fetch_url page_link) w in
      case fetch_url e (calls w) page_link of
        Raises \<Rightarrow> (None, add_log (Error_failed_to_scrape page_link) w1)
      | Returns None \<Rightarrow> (None, w1)
      | Returns (Some downloaded) \<Rightarrow>
          if downloaded = [] then (None, w1)
          else
            (case extract_text e downloaded of
               Raises \<Rightarrow> (None, add_log (Error_failed_to_scrape page_link) w1)
             | Returns result \<Rightarrow> (result, w1)))"

section \<open>The retrieval loop\<close>

text \<open>
  Python's list indexing: a negative index counts from the end, and an index outside
  \<open>[-len, len)\<close> raises \<^verbatim>\<open>IndexError\<close> (\<open>None\<close> here).
\<close>

definition py_index :: "nat \<Rightarrow> int \<Rightarrow> nat option" where
  "py_index len i =
     (if 0 \<le> i \<and> i < int len then Some (nat i)
      else if i < 0 \<and> - int len \<le> i then Some (nat (int len + i))
      else None)"

definition pop_at :: "'a list \<Rightarrow> nat \<Rightarrow> 'a list" where
  "pop_at xs k = take k xs @ drop (Suc k) xs"

text \<open>How one pass through the body of the loop in \<^verbatim>\<open>ai_search\<close> ends.\<close>

datatype step = Return_text string | Next_attempt "search_result list" | Raise_exc

definition attempt_body ::
    "env \<Rightarrow> message list \<Rightarrow> string \<Rightarrow> search_result list \<Rightarrow> world \<Rightarrow> step \<times> world" where
  "attempt_body e convo search_query search_results w =
     (case best_search_results e convo search_results search_query w of
        (Raises, w1) \<Rightarrow> (Raise_exc, w1)
      | (Returns best_result_index, w1) \<Rightarrow>
          if best_result_index \<ge> int (length search_results) then
            (Next_attempt search_results,
             add_log (Warning_invalid_result_index best_result_index) w1)
          else
            (case py_index (length search_results) best_result_index of
               None \<Rightarrow> (Raise_exc, w1)
             | Some k \<Rightarrow>
                 (case scrape_page e (link (search_results ! k)) w1 of
                    (None, w2) \<Rightarrow> (Next_attempt (pop_at search_results k), w2)
                  | (Some page_text, w2) \<Rightarrow>
                      if page_text = [] then (Next_attempt (pop_at search_results k), w2)
                      else
                        (case contain_data_needed e convo page_text search_query w2 of
                           (Raises, w3) \<Rightarrow> (Raise_exc, w3)
                         | (Returns relevant, w3) \<Rightarrow>
                             if relevant then
                               (Return_text page_text, add_log Info_found_relevant_content w3)
                             else (Next_attempt (pop_at search_results k), w3)))))"

datatype loop_exit = Found string | Exhausted | Raised

text \<open>
  \<^verbatim>\<open>for attempt in range(max_attempts)\<close>: the list argument holds the values of
  \<open>attempt\<close> still to come. The result carries the candidate list as the loop leaves it.
\<close>

fun for_attempts ::
    "env \<Rightarrow> message list \<Rightarrow> string \<Rightarrow> nat list \<Rightarrow> search_result list \<Rightarrow> world
     \<Rightarrow> loop_exit \<times> search_result list \<times> world" where
  "for_attempts e convo search_query [] search_results w = (Exhausted, search_results, w)"
| "for_attempts e convo search_query (attempt # rest) search_results w =
     (case attempt_body e convo search_query search_results w of
        (Return_text page_text, w1) \<Rightarrow> (Found page_text, search_results, w1)
      | (Next_attempt search_results1, w1) \<Rightarrow>
          for_attempts e convo search_query rest search_results1 w1
      | (Raise_exc, w1) \<Rightarrow> (Raised, search_results, w1))"

definition max_attempts :: nat where
  "max_attempts = 5"

definition ai_search :: "env \<Rightarrow> message list \<Rightarrow> world \<Rightarrow> string option \<times> world" where
  "ai_search e convo w =
     (case query_generator e convo (add_log Info_starting_search_process w) of
        (Raises, w1) \<Rightarrow> (None, add_log Error_in_search_process w1)
      | (Returns generated, w1) \<Rightarrow>
          (let search_query = remove_double_quotes generated in
           case search_duckduckgo e search_query w1 of
             (search_results, w2) \<Rightarrow>
               if search_results = [] then (None, add_log Warning_no_search_results_found w2)
               else
                 (case for_attempts e convo search_query [0..<max_attempts] search_results w2 of
                    (Found page_text, _, w3) \<Rightarrow> (Some page_text, w3)
                  | (Exhausted, _, w3) \<Rightarrow>
                      (None, add_log (Warning_could_not_find_relevant_content max_attempts) w3)
                  | (Raised, _, w3) \<Rightarrow> (None, add_log Error_in_search_process w3))))"

section \<open>The interactive loop\<close>

definition stream_assistant_response ::
    "env \<Rightarrow> message list \<Rightarrow> world \<Rightarrow> message list \<times> world" where
  "stream_assistant_response e convo w =
     (let w1 = add_call (Chat_stream convo) w in
      case chat_stream e (calls w) convo of
        Raises \<Rightarrow> (convo, add_log Error_streaming_response w1)
      | Returns chunks \<Rightarrow> (convo @ [\<lparr>role = ''assistant'', content = concat chunks\<rparr>], w1))"

definition search_result_prompt :: "string \<Rightarrow> string \<Rightarrow> string" where
  "search_result_prompt context prompt =
     ''SEARCH_RESULT: '' @ context @ '' \<newline>USER_PROMPT: '' @ prompt"

text \<open>
  One pass through the body of \<^verbatim>\<open>while True\<close> in \<^verbatim>\<open>main\<close>, for the line
  \<open>prompt\<close> that \<^verbatim>\<open>input\<close> returned. The state is the conversation
  \<^verbatim>\<open>assistant_convo\<close> and the world.
\<close>

definition main_turn :: "env \<Rightarrow> string \<Rightarrow> message list \<times> world \<Rightarrow> message list \<times> world" where
  "main_turn e prompt s =
     (case s of
        (convo, w) \<Rightarrow>
          if strip prompt = [] then (convo, w)
          else
            (let convo1 = convo @ [user_message prompt] in
             case check_search_or_not e convo1 w of
               (search, w1) \<Rightarrow>
                 if search then
                   (case ai_search e convo1 w1 of
                      (context, w2) \<Rightarrow>
                        (let convo2 = butlast convo1;
                             prompt1 =
                               (case context of
                                  None \<Rightarrow> search_failure_prompt prompt
                                | Some text \<Rightarrow>
                                    if text = [] then search_failure_prompt prompt
                                    else search_result_prompt text prompt)
                         in stream_assistant_response e (convo2 @ [user_message prompt1]) w2))
                 else stream_assistant_response e convo1 w1))"

text \<open>The loop over the lines the user enters, until the interrupt that ends it.\<close>

fun main_loop :: "env \<Rightarrow> string list \<Rightarrow> message list \<times> world \<Rightarrow> message list \<times> world" where
  "main_loop e [] s = s"
| "main_loop e (prompt # rest) s = main_loop e rest (main_turn e prompt s)"

section \<open>Notions used to state the properties\<close>

text \<open>
  A text contains \<^verbatim>\<open>true\<close> whatever the case of its letters: four neighbouring
  characters are a \<open>t\<close>, an \<open>r\<close>, a \<open>u\<close> and an \<open>e\<close>, each in either case.
\<close>

definition contains_true_ignoring_case :: "string \<Rightarrow> bool" where
  "contains_true_ignoring_case s =
     (\<exists>pre t r u e suf. s = pre @ [t, r, u, e] @ suf \<and>
        (t = CHR ''t'' \<or> t = CHR ''T'') \<and> (r = CHR ''r'' \<or> r = CHR ''R'') \<and>
        (u = CHR ''u'' \<or> u = CHR ''U'') \<and> (e = CHR ''e'' \<or> e = CHR ''E''))"

fun is_fetch :: "call \<Rightarrow> bool" where
  "is_fetch (Fetch_url l) = True"
| "is_fetch c = False"

fun is_model_call :: "call \<Rightarrow> bool" where
  "is_model_call (Chat msgs) = True"
| "is_model_call (Chat_stream msgs) = True"
| "is_model_call c = False"

definition fetches :: "world \<Rightarrow> nat" where
  "fetches w = length (filter is_fetch (calls w))"

definition model_calls :: "world \<Rightarrow> nat" where
  "model_calls w = length (filter is_model_call (calls w))"

text \<open>
  A call that a run makes after its search, built with a given user prompt and query: a
  page fetch, a selection message or a validation message.
\<close>

definition uses_query :: "env \<Rightarrow> string \<Rightarrow> string \<Rightarrow> call \<Rightarrow> bool" where
  "uses_query e user_prompt query c =
     ((\<exists>l. c = Fetch_url l) \<or>
      (\<exists>s_results. c = Chat [best_search_result_selector_agent,
                              user_message (best_msg e s_results user_prompt query)]) \<or>
      (\<exists>page. c = Chat [page_content_validator_agent,
                          user_message (page_content_msg page user_prompt query)]))"

text \<open>The candidate a result block with a title link yields, if it has one.\<close>

definition entry_of :: "nat \<times> result_div \<Rightarrow> search_result list" where
  "entry_of p =
     (case title_tag (snd p) of
        None \<Rightarrow> []
      | Some t \<Rightarrow> (case href t of None \<Rightarrow> [] | Some l \<Rightarrow> [result_entry (fst p) l (snd p)]))"

text \<open>A title anchor without \<^verbatim>\<open>href\<close>, on which the scan raises.\<close>

definition broken_title :: "result_div \<Rightarrow> bool" where
  "broken_title d = (case title_tag d of None \<Rightarrow> False | Some t \<Rightarrow> href t = None)"

section \<open>Concrete inputs\<close>

text \<open>
  An environment whose model always gives the same reply, whose search page always holds
  the same result blocks and whose pages always download to the same content.
\<close>

definition fixed_env :: "string \<Rightarrow> result_div list \<Rightarrow> string option \<Rightarrow> env" where
  "fixed_env reply divs page =
     \<lparr>chat = (\<lambda>history msgs. Returns reply),
      chat_stream = (\<lambda>history msgs. Returns [reply]),
      http_get = (\<lambda>history url. Returns divs),
      fetch_url = (\<lambda>history url. Returns page),
      extract_text = (\<lambda>downloaded. Returns (Some downloaded)),
      repr_results = (\<lambda>results. concat (map link results))\<rparr>"

definition titled :: "string \<Rightarrow> result_div" where
  "titled l = \<lparr>title_tag = Some \<lparr>href = Some l\<rparr>, snippet_tag = None\<rparr>"

definition untitled :: result_div where
  "untitled = \<lparr>title_tag = None, snippet_tag = None\<rparr>"

definition candidate :: "nat \<Rightarrow> string \<Rightarrow> search_result" where
  "candidate i l = \<lparr>result_id = i, link = l, search_description = ''No description available''\<rparr>"

definition eleven_blocks :: "result_div list" where
  "eleven_blocks =
     untitled # map titled [''a'', ''b'', ''c'', ''d'', ''e'', ''f'', ''g'', ''h'', ''i'', ''j'']"

definition offline_env :: env where
  "offline_env = (fixed_env [] [] None)\<lparr>chat := (\<lambda>history msgs. Raises)\<rparr>"

definition quoted_a :: string where
  "quoted_a = [CHR 0x22, CHR ''a'', CHR 0x22]"


definition quoting_env :: env where
  "quoting_env = fixed_env quoted_a [titled ''a''] (Some ''page'')"

definition world0 :: world where
  "world0 = \<lparr>calls = [], logged = [], selections = 0\<rparr>"

definition convo0 :: "message list" where
  "convo0 = [assistant_agent, user_message ''hi'']"

section \<open>Facts about the string operations\<close>

lemma strip_all_space:
  assumes "\<forall>ch\<in>set (utf8_chars s). space_char ch"
  shows "strip s = []"
proof -
  have h: "dropWhile space_char (utf8_chars s) = []" using assms by simp
  show ?thesis unfolding strip_def h by simp
qed

lemma utf8_chars_nonempty: "ch \<in> set (utf8_chars s) \<Longrightarrow> ch \<noteq> []"
  by (induction s rule: utf8_chars.induct) auto

lemma strip_Nil_iff: "strip s = [] \<longleftrightarrow> (\<forall>ch\<in>set (utf8_chars s). space_char ch)"
proof
  assume st: "strip s = []"
  show "\<forall>ch\<in>set (utf8_chars s). space_char ch"
  proof (rule ccontr)
    assume "\<not> (\<forall>ch\<in>set (utf8_chars s). space_char ch)"
    then have ne: "dropWhile space_char (utf8_chars s) \<noteq> []" by simp
    then have "\<not> space_char (hd (dropWhile space_char (utf8_chars s)))" by (rule hd_dropWhile)
    moreover have "hd (dropWhile space_char (utf8_chars s)) \<in> set (rev (dropWhile space_char (utf8_chars s)))"
      using ne by simp
    ultimately have left: "dropWhile space_char (rev (dropWhile space_char (utf8_chars s))) \<noteq> []"
      by (auto simp del: set_rev)
    then obtain ch where m: "ch \<in> set (dropWhile space_char (rev (dropWhile space_char (utf8_chars s))))"
      by (cases "dropWhile space_char (rev (dropWhile space_char (utf8_chars s)))") auto
    then have "ch \<in> set (utf8_chars s)"
      by (auto dest!: set_dropWhileD)
    then have "ch \<noteq> []" by (rule utf8_chars_nonempty)
    then show False using st m by (auto simp: strip_def)
  qed
qed (rule strip_all_space)

lemma starts_with_iff: "starts_with p s \<longleftrightarrow> (\<exists>suf. s = p @ suf)"
  by (induction p s rule: starts_with.induct) auto

lemma str_in_iff: "str_in sub s \<longleftrightarrow> (\<exists>pre suf. s = pre @ sub @ suf)"
proof (induction s)
  case Nil
  then show ?case by auto
next
  case (Cons c cs)
  show ?case
  proof
    assume "str_in sub (c # cs)"
    then consider "starts_with sub (c # cs)" | "str_in sub cs" by auto
    then show "\<exists>pre suf. c # cs = pre @ sub @ suf"
    proof cases
      case 1
      then obtain suf where "c # cs = sub @ suf" by (auto simp: starts_with_iff)
      then have "c # cs = [] @ sub @ suf" by simp
      then show ?thesis by blast
    next
      case 2
      then obtain pre suf where "cs = pre @ sub @ suf" using Cons.IH by auto
      then have "c # cs = (c # pre) @ sub @ suf" by simp
      then show ?thesis by blast
    qed
  next
    assume "\<exists>pre suf. c # cs = pre @ sub @ suf"
    then obtain pre suf where eq: "c # cs = pre @ sub @ suf" by blast
    show "str_in sub (c # cs)"
    proof (cases pre)
      case Nil
      then have "starts_with sub (c # cs)" using eq by (auto simp: starts_with_iff)
      then show ?thesis by simp
    next
      case (Cons a pre')
      then have "cs = pre' @ sub @ suf" using eq by simp
      then have "str_in sub cs" using Cons.IH by blast
      then show ?thesis by simp
    qed
  qed
qed

lemma of_char_lower_char:
  "(of_char (lower_char c) :: nat) =
     (if 65 \<le> (of_char c :: nat) \<and> (of_char c :: nat) \<le> 90 then of_char c + 32 else of_char c)"
  by (simp add: lower_char_def Let_def)

lemma char_eq_of_char: "c = d \<longleftrightarrow> (of_char c :: nat) = of_char d"
  by simp

lemma lower_char_t: "lower_char c = CHR ''t'' \<longleftrightarrow> c = CHR ''t'' \<or> c = CHR ''T''"
  unfolding char_eq_of_char [of _ "CHR ''t''"] char_eq_of_char [of _ "CHR ''T''"] of_char_lower_char
  by auto

lemma lower_char_r: "lower_char c = CHR ''r'' \<longleftrightarrow> c = CHR ''r'' \<or> c = CHR ''R''"
  unfolding char_eq_of_char [of _ "CHR ''r''"] char_eq_of_char [of _ "CHR ''R''"] of_char_lower_char
  by auto

lemma lower_char_u: "lower_char c = CHR ''u'' \<longleftrightarrow> c = CHR ''u'' \<or> c = CHR ''U''"
  unfolding char_eq_of_char [of _ "CHR ''u''"] char_eq_of_char [of _ "CHR ''U''"] of_char_lower_char
  by auto

lemma lower_char_e: "lower_char c = CHR ''e'' \<longleftrightarrow> c = CHR ''e'' \<or> c = CHR ''E''"
  unfolding char_eq_of_char [of _ "CHR ''e''"] char_eq_of_char [of _ "CHR ''E''"] of_char_lower_char
  by auto

section \<open>What each operation does to the world\<close>

lemma select_tries_selections:
  "select_tries e msgs len ns w = (i, w') \<Longrightarrow> selections w' = selections w"
  by (induction ns arbitrary: w)
     (auto simp: do_chat_def add_call_def add_log_def split: outcome.splits option.splits)

lemma select_tries_calls:
  "select_tries e msgs len ns w = (i, w') \<Longrightarrow> \<exists>new. calls w' = calls w @ new"
  by (induction ns arbitrary: w)
     (fastforce simp: do_chat_def add_call_def add_log_def split: outcome.splits option.splits)+

lemma select_tries_upper:
  "select_tries e msgs len ns w = (i, w') \<Longrightarrow> 0 < len \<Longrightarrow> i \<le> int len - 1"
  by (induction ns arbitrary: w)
     (auto simp: do_chat_def split: outcome.splits option.splits)

lemma best_search_results_empty:
  "best_search_results e convo [] query w = (Returns 0, w\<lparr>selections := Suc (selections w)\<rparr>)"
  by (simp add: best_search_results_def)

lemma best_search_results_upper:
  "best_search_results e convo s_results query w = (Returns i, w') \<Longrightarrow> s_results \<noteq> [] \<Longrightarrow>
     i < int (length s_results)"
  by (auto simp: best_search_results_def Let_def split: outcome.splits prod.splits
           dest!: select_tries_upper)

lemma best_search_results_selections:
  "best_search_results e convo s_results query w = (r, w') \<Longrightarrow> selections w' = Suc (selections w)"
  by (auto simp: best_search_results_def Let_def split: outcome.splits prod.splits if_splits
           dest!: select_tries_selections)

lemma best_search_results_calls:
  "best_search_results e convo s_results query w = (r, w') \<Longrightarrow> \<exists>new. calls w' = calls w @ new"
  by (auto simp: best_search_results_def Let_def split: outcome.splits prod.splits if_splits
           dest!: select_tries_calls)

lemma query_generator_world:
  "query_generator e convo w = (r, w') \<Longrightarrow>
     selections w' = selections w \<and> (\<exists>new. calls w' = calls w @ new)"
  by (auto simp: query_generator_def Let_def do_chat_def add_call_def add_log_def
           split: outcome.splits prod.splits)

lemma search_duckduckgo_world:
  "search_duckduckgo e q w = (r, w') \<Longrightarrow>
     selections w' = selections w \<and>
     calls w' = calls w @ [Http_get (''https://duckduckgo.com/html/?q='' @ q)]"
  by (auto simp: search_duckduckgo_def Let_def add_call_def add_log_def
           split: outcome.splits prod.splits)

lemma scrape_page_world:
  "scrape_page e l w = (r, w') \<Longrightarrow>
     selections w' = selections w \<and> calls w' = calls w @ [Fetch_url l]"
  by (auto simp: scrape_page_def Let_def add_call_def add_log_def
           split: outcome.splits prod.splits option.splits if_splits)

lemma contain_data_needed_world:
  "contain_data_needed e convo page q w = (r, w') \<Longrightarrow>
     selections w' = selections w \<and> (\<exists>new. calls w' = calls w @ new)"
  by (auto simp: contain_data_needed_def Let_def do_chat_def add_call_def add_log_def
           split: outcome.splits prod.splits)

section \<open>Facts about one attempt and about the loop\<close>

lemma py_index_Some: "py_index len i = Some k \<Longrightarrow> k < len"
  by (auto simp: py_index_def split: if_splits)

lemma length_pop_at: "k < length xs \<Longrightarrow> Suc (length (pop_at xs k)) = length xs"
  by (auto simp: pop_at_def)

lemma guard_only_on_empty:
  assumes "best_search_results e convo cands q w = (Returns idx, w1)"
    and "idx \<ge> int (length cands)"
  shows "cands = [] \<and> idx = 0 \<and> w1 = w\<lparr>selections := Suc (selections w)\<rparr>"
proof (cases "cands = []")
  case True
  then show ?thesis using assms(1) by (simp add: best_search_results_empty)
next
  case False
  then have "idx < int (length cands)" using assms(1) by (rule best_search_results_upper [rotated])
  then show ?thesis using assms(2) by simp
qed

lemma attempt_body_empty:
  "attempt_body e convo q [] w =
     (Next_attempt [], add_log (Warning_invalid_result_index 0) (w\<lparr>selections := Suc (selections w)\<rparr>))"
  by (simp add: attempt_body_def best_search_results_empty)

lemma attempt_body_selections:
  "attempt_body e convo q cands w = (st, w') \<Longrightarrow> selections w' = Suc (selections w)"
  unfolding attempt_body_def
  by (auto simp: add_log_def split: prod.splits outcome.splits if_splits option.splits
      dest!: best_search_results_selections scrape_page_world contain_data_needed_world)

lemma attempt_body_calls:
  "attempt_body e convo q cands w = (st, w') \<Longrightarrow> \<exists>new. calls w' = calls w @ new"
  unfolding attempt_body_def
  by (auto simp: add_log_def split: prod.splits outcome.splits if_splits option.splits
      dest!: best_search_results_calls scrape_page_world contain_data_needed_world)

lemma attempt_body_next:
  assumes "attempt_body e convo q cands w = (Next_attempt cands', w')"
  shows "(cands = [] \<and> cands' = []) \<or> (cands \<noteq> [] \<and> Suc (length cands') = length cands)"
proof (cases "cands = []")
  case True
  then show ?thesis using assms by (simp add: attempt_body_empty)
next
  case False
  then show ?thesis using assms unfolding attempt_body_def
    by (auto split: prod.splits outcome.splits if_splits option.splits
        dest!: py_index_Some length_pop_at dest: guard_only_on_empty)
qed


lemma for_attempts_selections:
  "for_attempts e convo q ns cands w = (r, cands', w') \<Longrightarrow>
     selections w' \<le> selections w + length ns"
proof (induction ns arbitrary: cands w)
  case Nil
  then show ?case by simp
next
  case (Cons n ns)
  obtain st w1 where b: "attempt_body e convo q cands w = (st, w1)" by (cases "attempt_body e convo q cands w")
  then have s: "selections w1 = Suc (selections w)" by (rule attempt_body_selections)
  show ?case
  proof (cases st)
    case (Next_attempt c1)
    then have "for_attempts e convo q ns c1 w1 = (r, cands', w')" using Cons.prems b by simp
    then have "selections w' \<le> selections w1 + length ns" by (rule Cons.IH)
    then show ?thesis using s by simp
  qed (use Cons.prems b s in auto)
qed

lemma for_attempts_length:
  "for_attempts e convo q ns cands w = (r, cands', w') \<Longrightarrow> length cands' \<le> length cands"
proof (induction ns arbitrary: cands w)
  case Nil
  then show ?case by simp
next
  case (Cons n ns)
  obtain st w1 where b: "attempt_body e convo q cands w = (st, w1)" by (cases "attempt_body e convo q cands w")
  show ?case
  proof (cases st)
    case (Next_attempt c1)
    then have "for_attempts e convo q ns c1 w1 = (r, cands', w')" using Cons.prems b by simp
    then have "length cands' \<le> length c1" by (rule Cons.IH)
    moreover have "length c1 \<le> length cands"
      using attempt_body_next [of e convo q cands w c1 w1] b Next_attempt by auto
    ultimately show ?thesis by simp
  qed (use Cons.prems b in auto)
qed

lemma for_attempts_calls:
  "for_attempts e convo q ns cands w = (r, cands', w') \<Longrightarrow> \<exists>new. calls w' = calls w @ new"
proof (induction ns arbitrary: cands w)
  case Nil
  then show ?case by simp
next
  case (Cons n ns)
  obtain st w1 where b: "attempt_body e convo q cands w = (st, w1)" by (cases "attempt_body e convo q cands w")
  then obtain new1 where c1: "calls w1 = calls w @ new1" using attempt_body_calls by blast
  show ?case
  proof (cases st)
    case (Next_attempt c1)
    then have "for_attempts e convo q ns c1 w1 = (r, cands', w')" using Cons.prems b by simp
    then obtain new2 where "calls w' = calls w1 @ new2" using Cons.IH by blast
    then show ?thesis using c1 by simp
  qed (use Cons.prems b c1 in auto)
qed


lemma for_attempts_empty:
  "for_attempts e convo q ns [] w =
     (Exhausted, [],
      w\<lparr>logged := logged w @ replicate (length ns) (Warning_invalid_result_index 0),
        selections := selections w + length ns\<rparr>)"
proof (induction ns arbitrary: w)
  case Nil
  then show ?case by simp
next
  case (Cons n ns)
  show ?case
    by (simp add: attempt_body_empty Cons.IH add_log_def replicate_append_same)
qed

section \<open>Candidates that are never found relevant\<close>

lemma fetches_add_log: "fetches (add_log x w) = fetches w"
  by (simp add: fetches_def add_log_def)

lemma fetches_selections_update: "fetches (w\<lparr>selections := n\<rparr>) = fetches w"
  by (simp add: fetches_def)

lemma select_tries_fetches:
  "select_tries e msgs len ns w = (i, w') \<Longrightarrow> fetches w' = fetches w"
  by (induction ns arbitrary: w)
     (auto simp: do_chat_def add_call_def add_log_def fetches_def split: outcome.splits option.splits)

lemma best_search_results_fetches:
  "best_search_results e convo s_results query w = (r, w') \<Longrightarrow> fetches w' = fetches w"
  by (auto simp: best_search_results_def Let_def fetches_selections_update
           split: outcome.splits prod.splits if_splits dest!: select_tries_fetches)

lemma best_search_results_returns:
  "convo \<noteq> [] \<Longrightarrow> \<exists>i. fst (best_search_results e convo s_results query w) = Returns i"
  by (auto simp: best_search_results_def Let_def last_content_def split: prod.splits)

lemma scrape_page_fetches:
  "scrape_page e l w = (r, w') \<Longrightarrow> fetches w' = Suc (fetches w)"
  by (auto simp: fetches_def dest!: scrape_page_world)

lemma contain_data_needed_fetches:
  "contain_data_needed e convo page q w = (r, w') \<Longrightarrow> fetches w' = fetches w"
  by (auto simp: contain_data_needed_def Let_def do_chat_def add_call_def add_log_def fetches_def
           split: outcome.splits prod.splits)

lemma attempt_body_irrelevant:
  assumes irrelevant: "\<And>page w. fst (contain_data_needed e convo page q w) = Returns False"
    and nonneg: "\<And>cs w i. fst (best_search_results e convo cs q w) = Returns i \<Longrightarrow> 0 \<le> i"
    and ne: "cands \<noteq> []"
  shows "\<exists>cands' w'. attempt_body e convo q cands w = (Next_attempt cands', w') \<and>
           Suc (length cands') = length cands \<and> selections w' = Suc (selections w) \<and>
           fetches w' = Suc (fetches w)"
proof -
  have convo: "convo \<noteq> []"
    using irrelevant [of "[]" w] by (auto simp: contain_data_needed_def last_content_def)
  obtain r w1 where b: "best_search_results e convo cands q w = (r, w1)"
    by (cases "best_search_results e convo cands q w")
  then obtain idx where r: "r = Returns idx"
    using best_search_results_returns [OF convo, of e cands q w] by auto
  have lo: "0 \<le> idx" using nonneg [of cands w idx] b r by simp
  have hi: "idx < int (length cands)" using best_search_results_upper b r ne by blast
  have ix: "py_index (length cands) idx = Some (nat idx)" using lo hi by (simp add: py_index_def)
  have k: "nat idx < length cands" using lo hi by simp
  have f1: "fetches w1 = fetches w" using b by (rule best_search_results_fetches)
  have s1: "selections w1 = Suc (selections w)" using b by (rule best_search_results_selections)
  obtain pt w2 where sp: "scrape_page e (link (cands ! nat idx)) w1 = (pt, w2)"
    by (cases "scrape_page e (link (cands ! nat idx)) w1")
  have f2: "fetches w2 = Suc (fetches w)" using scrape_page_fetches [OF sp] f1 by simp
  have s2: "selections w2 = Suc (selections w)" using scrape_page_world [OF sp] s1 by simp
  have len: "Suc (length (pop_at cands (nat idx))) = length cands" using k by (rule length_pop_at)
  show ?thesis
  proof (cases "pt = None \<or> pt = Some []")
    case True
    then have "attempt_body e convo q cands w = (Next_attempt (pop_at cands (nat idx)), w2)"
      using b r hi ix sp by (auto simp: attempt_body_def)
    then show ?thesis using len f2 s2 by simp
  next
    case False
    then obtain page where pt: "pt = Some page" "page \<noteq> []" by auto
    obtain w3 where cd: "contain_data_needed e convo page q w2 = (Returns False, w3)"
      using irrelevant [of page w2] by (cases "contain_data_needed e convo page q w2") simp
    have "attempt_body e convo q cands w = (Next_attempt (pop_at cands (nat idx)), w3)"
      using b r hi ix sp pt cd by (simp add: attempt_body_def)
    moreover have "fetches w3 = Suc (fetches w)" using contain_data_needed_fetches [OF cd] f2 by simp
    moreover have "selections w3 = Suc (selections w)" using contain_data_needed_world [OF cd] s2 by simp
    ultimately show ?thesis using len by simp
  qed
qed

lemma for_attempts_irrelevant:
  assumes irrelevant: "\<And>page w. fst (contain_data_needed e convo page q w) = Returns False"
    and nonneg: "\<And>cs w i. fst (best_search_results e convo cs q w) = Returns i \<Longrightarrow> 0 \<le> i"
  shows "length cands \<le> length ns \<Longrightarrow>
     \<exists>w' l. for_attempts e convo q ns cands w = (Exhausted, [], w') \<and>
       selections w' = selections w + length ns \<and>
       fetches w' = fetches w + length cands \<and>
       logged w' = l @ replicate (length ns - length cands) (Warning_invalid_result_index 0)"
proof (induction ns arbitrary: cands w)
  case Nil
  then show ?case by simp
next
  case (Cons n ns)
  show ?case
  proof (cases "cands = []")
    case True
    show ?thesis unfolding True for_attempts_empty by (simp add: fetches_def)
  next
    case False
    have "\<exists>c1 w1. attempt_body e convo q cands w = (Next_attempt c1, w1) \<and>
           Suc (length c1) = length cands \<and> selections w1 = Suc (selections w) \<and>
           fetches w1 = Suc (fetches w)"
      by (rule attempt_body_irrelevant [OF irrelevant nonneg False])
    then obtain c1 w1 where b: "attempt_body e convo q cands w = (Next_attempt c1, w1)"
      and l1: "Suc (length c1) = length cands" and s1: "selections w1 = Suc (selections w)"
      and f1: "fetches w1 = Suc (fetches w)"
      by blast
    have "length c1 \<le> length ns" using l1 Cons.prems by simp
    then obtain w' l where "for_attempts e convo q ns c1 w1 = (Exhausted, [], w')"
      and "selections w' = selections w1 + length ns"
      and "fetches w' = fetches w1 + length c1"
      and "logged w' = l @ replicate (length ns - length c1) (Warning_invalid_result_index 0)"
      using Cons.IH by blast
    moreover have "Suc (length ns) - length cands = length ns - length c1"
      using l1 by arith
    ultimately show ?thesis using b l1 [symmetric] s1 f1 by simp
  qed
qed

section \<open>Evaluating the loops' ranges and the parser\<close>

lemma range_3: "[0..<3] = [0, 1, 2]"
  by (simp add: upt_rec)

lemma range_max_attempts: "[0..<max_attempts] = [0, 1, 2, 3, 4]"
  by (simp add: max_attempts_def upt_rec)

lemmas py_int_eval = py_int_def utf8_width_def ascii_of_def c_space_def unsigned_literal_def
  digit_val_def int_max_str_digits_def

lemma py_int_minus_7: "py_int ''-7'' = Some (- 7)"
  by (simp add: py_int_eval)

lemma py_int_0: "py_int ''0'' = Some 0"
  by (simp add: py_int_eval)

lemma blank_line_chars:
  "utf8_chars [CHR '' '', CHR 0x09, CHR 0xC2, CHR 0xA0, CHR 0xE3, CHR 0x80, CHR 0x80] =
     [[CHR '' ''], [CHR 0x09], [CHR 0xC2, CHR 0xA0], [CHR 0xE3, CHR 0x80, CHR 0x80]]"
  by (simp add: utf8_width_def)

lemma blank_line_code_points:
  "code_point [CHR '' ''] = 32" "code_point [CHR 0x09] = 9"
  "code_point [CHR 0xC2, CHR 0xA0] = 0xA0" "code_point [CHR 0xE3, CHR 0x80, CHR 0x80] = 0x3000"
  by simp_all

lemma py_int_examples:
  "py_int [CHR 0x1C, CHR ''1''] = None"
  "py_int [CHR 0xC2, CHR 0xA0, CHR ''1''] = Some 1"
  "py_int '' +1_0 '' = Some 10"
  "py_int ''1__0'' = None"
  by (simp_all add: py_int_eval is_space_def)

lemma py_int_arabic_digit: "py_int [CHR 0xD9, CHR 0xA3] = Some 3"
  by (simp add: py_int_eval is_space_def unicode_decimal_def decimal_zeros_def char_eq_of_char)

lemma strip_examples:
  "strip [CHR 0xC2, CHR 0xA0, CHR ''a'', CHR 0xE2, CHR 0x80, CHR 0x83] = ''a''"
  "strip [CHR 0xA0] = []"
  by (simp_all add: strip_def utf8_width_def space_char_def is_space_def)

section \<open>The index of the best search result\<close>

text \<open>
  C1. The claim is that for a non-empty candidate list the index \<^verbatim>\<open>best_search_results\<close>
  returns lies between 0 and the length minus one for every reply of the model, and that
  for an empty list the result is 0 without a model call. The upper bound and the empty
  case hold (\<open>best_search_results_upper\<close>, \<open>best_search_results_empty\<close>). The lower
  bound does not: \<^verbatim>\<open>min(index, len(s_results) - 1)\<close> leaves a negative number as it
  is. With three candidates and the reply \<^verbatim>\<open>-7\<close> the function returns \<open>-7\<close>, and the
  loop of \<^verbatim>\<open>ai_search\<close> then raises \<^verbatim>\<open>IndexError\<close> at
  \<^verbatim>\<open>search_results[best_result_index]\<close>.
\<close>

theorem best_search_results_negative_reply:
  "fst (best_search_results (fixed_env ''-7'' [] None) convo0
          [candidate 0 ''a'', candidate 1 ''b'', candidate 2 ''c''] ''q'' world0) = Returns (- 7)
   \<and> fst (attempt_body (fixed_env ''-7'' [] None) convo0 ''q''
          [candidate 0 ''a'', candidate 1 ''b'', candidate 2 ''c''] world0) = Raise_exc"
  by (simp add: attempt_body_def best_search_results_def last_content_def convo0_def range_3
      do_chat_def fixed_env_def py_int_minus_7 py_index_def Let_def)

section \<open>Blank input lines\<close>

text \<open>
  C10. A line that is empty or holds only whitespace characters (any of the 29 that
  \<^verbatim>\<open>str.strip\<close> drops, ASCII or not) leaves the conversation and the world as they
  are: no message is appended or removed, no call is made and nothing is logged. The loop
  goes on with the next line.
\<close>

theorem blank_input_is_ignored:
  "\<forall>ch\<in>set (utf8_chars prompt). is_space (code_point ch) \<Longrightarrow>
     main_turn e prompt (convo, w) = (convo, w) \<and>
     main_loop e (prompt # rest) (convo, w) = main_loop e rest (convo, w)"
  by (simp add: main_turn_def strip_all_space space_char_def)

text \<open>
  The theorem at the line made of a space, a tab, a no-break space (U+00A0) and an
  ideographic space (U+3000), followed by an empty line.
\<close>

theorem blank_input_is_ignored_witness:
  "utf8_chars [CHR '' '', CHR 0x09, CHR 0xC2, CHR 0xA0, CHR 0xE3, CHR 0x80, CHR 0x80] =
     [[CHR '' ''], [CHR 0x09], [CHR 0xC2, CHR 0xA0], [CHR 0xE3, CHR 0x80, CHR 0x80]] \<and>
   is_space (code_point [CHR '' '']) \<and> is_space (code_point [CHR 0x09]) \<and>
   is_space (code_point [CHR 0xC2, CHR 0xA0]) \<and>
   is_space (code_point [CHR 0xE3, CHR 0x80, CHR 0x80]) \<and>
   main_turn (fixed_env ''True'' [] None)
     [CHR '' '', CHR 0x09, CHR 0xC2, CHR 0xA0, CHR 0xE3, CHR 0x80, CHR 0x80] (convo0, world0) =
     (convo0, world0) \<and>
   main_loop (fixed_env ''True'' [] None)
     [[CHR '' '', CHR 0x09, CHR 0xC2, CHR 0xA0, CHR 0xE3, CHR 0x80, CHR 0x80], []] (convo0, world0) =
     (convo0, world0)"
proof -
  have sp: "is_space (code_point [CHR '' '']) \<and> is_space (code_point [CHR 0x09]) \<and>
     is_space (code_point [CHR 0xC2, CHR 0xA0]) \<and>
     is_space (code_point [CHR 0xE3, CHR 0x80, CHR 0x80])"
    by (simp add: is_space_def)
  have h: "\<forall>ch\<in>set (utf8_chars [CHR '' '', CHR 0x09, CHR 0xC2, CHR 0xA0, CHR 0xE3, CHR 0x80, CHR 0x80]).
      is_space (code_point ch)"
    unfolding blank_line_chars using sp by simp
  have h0: "\<forall>ch\<in>set (utf8_chars []). is_space (code_point ch)" by simp
  note t1 = blank_input_is_ignored [OF h, of "fixed_env ''True'' [] None" convo0 world0 "[[]]"]
  note t0 = blank_input_is_ignored [OF h0, of "fixed_env ''True'' [] None" convo0 world0 "[]"]
  have a: "main_turn (fixed_env ''True'' [] None)
     [CHR '' '', CHR 0x09, CHR 0xC2, CHR 0xA0, CHR 0xE3, CHR 0x80, CHR 0x80] (convo0, world0) =
     (convo0, world0)"
    using t1 by blast
  have "main_loop (fixed_env ''True'' [] None) [[]] (convo0, world0) = (convo0, world0)"
    using t0 by simp
  then have b: "main_loop (fixed_env ''True'' [] None)
     [[CHR '' '', CHR 0x09, CHR 0xC2, CHR 0xA0, CHR 0xE3, CHR 0x80, CHR 0x80], []] (convo0, world0) =
     (convo0, world0)"
    using t1 by simp
  show ?thesis
    by (simp only: sp blank_line_chars a b simp_thms)
qed

section \<open>Counting the selections of a run\<close>

lemma query_generator_fetches:
  "query_generator e convo w = (r, w') \<Longrightarrow> fetches w' = fetches w"
  by (auto simp: query_generator_def Let_def do_chat_def add_call_def add_log_def fetches_def
           split: outcome.splits prod.splits)

lemma search_duckduckgo_fetches:
  "search_duckduckgo e q w = (r, w') \<Longrightarrow> fetches w' = fetches w"
  by (auto simp: fetches_def dest!: search_duckduckgo_world)

lemma ai_search_selections:
  "selections (snd (ai_search e convo w)) \<le> selections w + max_attempts"
proof -
  let ?w0 = "add_log Info_starting_search_process w"
  obtain r w1 where qg: "query_generator e convo ?w0 = (r, w1)"
    by (cases "query_generator e convo ?w0")
  have s1: "selections w1 = selections w"
    using query_generator_world [OF qg] by (simp add: add_log_def)
  show ?thesis
  proof (cases r)
    case Raises
    then show ?thesis using qg s1 by (simp add: ai_search_def add_log_def)
  next
    case (Returns g)
    obtain cands w2 where sd: "search_duckduckgo e (remove_double_quotes g) w1 = (cands, w2)"
      by (cases "search_duckduckgo e (remove_double_quotes g) w1")
    have s2: "selections w2 = selections w" using search_duckduckgo_world [OF sd] s1 by simp
    show ?thesis
    proof (cases "cands = []")
      case True
      then show ?thesis using qg Returns sd s2 by (simp add: ai_search_def add_log_def)
    next
      case False
      obtain x c3 w3 where fa:
        "for_attempts e convo (remove_double_quotes g) [0..<max_attempts] cands w2 = (x, c3, w3)"
        by (cases "for_attempts e convo (remove_double_quotes g) [0..<max_attempts] cands w2")
      have "selections w3 \<le> selections w2 + length [0..<max_attempts]"
        using fa by (rule for_attempts_selections)
      then have "selections w3 \<le> selections w + max_attempts" using s2 by simp
      then show ?thesis using qg Returns sd False fa
        by (cases x) (simp_all add: ai_search_def add_log_def)
    qed
  qed
qed

section \<open>The bound on the attempts and the shrinking candidate list\<close>

text \<open>
  C2, as amended. A run of \<^verbatim>\<open>ai_search\<close> enters \<^verbatim>\<open>best_search_results\<close> at most 5
  times; the loop never leaves the candidate list longer than it found it; and an attempt
  that goes on to the next one (it neither returns a text nor raises) removes exactly one
  candidate when the list is non-empty and leaves the list empty when it is empty.
\<close>

theorem attempts_bounded_list_shrinks:
  "selections (snd (ai_search e convo w)) \<le> selections w + 5 \<and>
   length (fst (snd (for_attempts e convo q ns cands w))) \<le> length cands \<and>
   (fst (attempt_body e convo q cands w) = Next_attempt cands1 \<longrightarrow>
      (if cands = [] then cands1 = [] else Suc (length cands1) = length cands))"
proof (intro conjI impI)
  show "selections (snd (ai_search e convo w)) \<le> selections w + 5"
    using ai_search_selections [of e convo w] by (simp add: max_attempts_def)
  show "length (fst (snd (for_attempts e convo q ns cands w))) \<le> length cands"
    using for_attempts_length [of e convo q ns cands w] by (cases "for_attempts e convo q ns cands w") simp
  assume "fst (attempt_body e convo q cands w) = Next_attempt cands1"
  then have "attempt_body e convo q cands w = (Next_attempt cands1, snd (attempt_body e convo q cands w))"
    by (cases "attempt_body e convo q cands w") simp
  then show "if cands = [] then cands1 = [] else Suc (length cands1) = length cands"
    using attempt_body_next by fastforce
qed

lemma attempt_body_one_candidate:
  "fst (attempt_body (fixed_env ''0'' [titled ''a''] None) convo0 ''0'' [candidate 0 ''a''] w) =
     Next_attempt []"
  by (simp add: attempt_body_def best_search_results_def last_content_def convo0_def range_3
      do_chat_def fixed_env_def py_int_0 py_index_def Let_def scrape_page_def pop_at_def)

text \<open>The theorem at a search that gives one candidate whose page cannot be fetched.\<close>

theorem attempts_bounded_list_shrinks_witness:
  "fst (attempt_body (fixed_env ''0'' [titled ''a''] None) convo0 ''0'' [candidate 0 ''a''] world0) =
     Next_attempt [] \<and>
   Suc (length ([] :: search_result list)) = length [candidate 0 ''a''] \<and>
   selections (snd (ai_search (fixed_env ''0'' [titled ''a''] None) convo0 world0)) \<le> 5"
  using attempts_bounded_list_shrinks [of "fixed_env ''0'' [titled ''a''] None" convo0 world0
      "''0''" "[]" "[candidate 0 ''a'']" "[]"]
    attempt_body_one_candidate [of world0]
  by (simp add: world0_def)

lemma search_one_candidate:
  "fst (search_duckduckgo (fixed_env ''0'' [titled ''a''] None) q w) = [candidate 0 ''a'']"
  by (simp add: search_duckduckgo_def fixed_env_def Let_def titled_def result_entry_def candidate_def)

text \<open>
  C2 as stated fails: every failed attempt is said to remove exactly one candidate. With
  one candidate whose page cannot be fetched, the first attempt empties the list, the
  second attempt finds it empty, fails and removes nothing, and the run makes 5 attempts
  on a list that held one candidate.
\<close>

theorem failed_attempt_without_removal_counterexample:
  "fst (search_duckduckgo (fixed_env ''0'' [titled ''a''] None) ''0'' world0) = [candidate 0 ''a''] \<and>
   fst (attempt_body (fixed_env ''0'' [titled ''a''] None) convo0 ''0'' [candidate 0 ''a''] world0) =
     Next_attempt [] \<and>
   fst (attempt_body (fixed_env ''0'' [titled ''a''] None) convo0 ''0'' []
          (snd (attempt_body (fixed_env ''0'' [titled ''a''] None) convo0 ''0'' [candidate 0 ''a''] world0))) =
     Next_attempt [] \<and>
   Suc (length ([] :: search_result list)) \<noteq> length ([] :: search_result list) \<and>
   fst (ai_search (fixed_env ''0'' [titled ''a''] None) convo0 world0) = None \<and>
   selections (snd (ai_search (fixed_env ''0'' [titled ''a''] None) convo0 world0)) = 5"
proof -
  have ai: "ai_search (fixed_env ''0'' [titled ''a''] None) convo0 world0 =
      (None, snd (ai_search (fixed_env ''0'' [titled ''a''] None) convo0 world0)) \<and>
    selections (snd (ai_search (fixed_env ''0'' [titled ''a''] None) convo0 world0)) = 5"
    by (simp add: ai_search_def query_generator_def last_content_def convo0_def do_chat_def
      range_max_attempts for_attempts_empty world0_def add_log_def add_call_def
      attempt_body_def best_search_results_def range_3 fixed_env_def py_int_0 py_index_def
      Let_def scrape_page_def pop_at_def remove_double_quotes_def search_duckduckgo_def
      titled_def)
  then have "fst (ai_search (fixed_env ''0'' [titled ''a''] None) convo0 world0) = None"
    by (metis fst_conv)
  then show ?thesis
    using ai by (simp add: search_one_candidate attempt_body_one_candidate attempt_body_empty)
qed

section \<open>The world after a log entry\<close>

lemma add_log_fields:
  "selections (add_log x w) = selections w"
  "calls (add_log x w) = calls w"
  "logged (add_log x w) = logged w @ [x]"
  by (simp_all add: add_log_def)

lemma range_5: "[0..<5] = [0, 1, 2, 3, 4]"
  by (simp add: upt_rec)

section \<open>Three candidates, none of them relevant\<close>

text \<open>
  C3, as amended. When the search gives exactly 3 candidates, no page is ever judged
  relevant and no selected index is negative, three attempts fetch a page and remove a
  candidate each, the fourth and the fifth attempt are still made and end at the index
  check (two warnings, no fetch), the loop leaves the list empty after all 5 attempts, and
  \<^verbatim>\<open>ai_search\<close> returns \<^verbatim>\<open>None\<close>.
\<close>

theorem three_irrelevant_candidates:
  assumes gen: "fst (query_generator e convo (add_log Info_starting_search_process w)) = Returns g"
    and three: "length (fst (search_duckduckgo e (remove_double_quotes g)
                  (snd (query_generator e convo (add_log Info_starting_search_process w))))) = 3"
    and irrelevant: "\<And>page w. fst (contain_data_needed e convo page (remove_double_quotes g) w) = Returns False"
    and nonneg: "\<And>cs w i. fst (best_search_results e convo cs (remove_double_quotes g) w) = Returns i \<Longrightarrow> 0 \<le> i"
  shows "fst (ai_search e convo w) = None \<and>
     selections (snd (ai_search e convo w)) = selections w + 5 \<and>
     fetches (snd (ai_search e convo w)) = fetches w + 3 \<and>
     (\<exists>l. logged (snd (ai_search e convo w)) =
        l @ [Warning_invalid_result_index 0, Warning_invalid_result_index 0,
             Warning_could_not_find_relevant_content 5]) \<and>
     (\<exists>w3. for_attempts e convo (remove_double_quotes g) [0..<max_attempts]
        (fst (search_duckduckgo e (remove_double_quotes g)
                  (snd (query_generator e convo (add_log Info_starting_search_process w)))))
        (snd (search_duckduckgo e (remove_double_quotes g)
                  (snd (query_generator e convo (add_log Info_starting_search_process w))))) =
        (Exhausted, [], w3))"
proof -
  let ?q = "remove_double_quotes g"
  let ?w0 = "add_log Info_starting_search_process w"
  obtain w1 where qg: "query_generator e convo ?w0 = (Returns g, w1)"
    using gen by (cases "query_generator e convo ?w0") simp
  obtain cands w2 where sd: "search_duckduckgo e ?q w1 = (cands, w2)"
    by (cases "search_duckduckgo e ?q w1")
  have len: "length cands = 3" using three qg sd by simp
  then have ne: "cands \<noteq> []" by auto
  have s2: "selections w2 = selections w"
    using query_generator_world [OF qg] search_duckduckgo_world [OF sd] by (simp add: add_log_def)
  have f2: "fetches w2 = fetches w"
    using query_generator_fetches [OF qg] search_duckduckgo_fetches [OF sd]
    by (simp add: fetches_add_log)
  have le: "length cands \<le> length [0..<max_attempts]" using len by (simp add: max_attempts_def)
  have "\<exists>w' l. for_attempts e convo ?q [0..<max_attempts] cands w2 = (Exhausted, [], w') \<and>
       selections w' = selections w2 + length [0..<max_attempts] \<and>
       fetches w' = fetches w2 + length cands \<and>
       logged w' = l @ replicate (length [0..<max_attempts] - length cands) (Warning_invalid_result_index 0)"
    by (rule for_attempts_irrelevant [OF irrelevant nonneg le])
  then obtain w3 l where fa: "for_attempts e convo ?q [0..<max_attempts] cands w2 = (Exhausted, [], w3)"
    and s3: "selections w3 = selections w + 5" and f3: "fetches w3 = fetches w + 3"
    and l3: "logged w3 = l @ replicate (5 - 3) (Warning_invalid_result_index 0)"
    using s2 f2 len by (auto simp: max_attempts_def)
  have two: "replicate (5 - 3) (Warning_invalid_result_index 0) =
      [Warning_invalid_result_index 0, Warning_invalid_result_index 0]"
    by (simp add: numeral_2_eq_2)
  have ai: "ai_search e convo w = (None, add_log (Warning_could_not_find_relevant_content 5) w3)"
    using qg sd ne fa by (simp add: ai_search_def max_attempts_def)
  show ?thesis
    using ai fa s3 f3 l3 two qg sd by (simp add: add_log_fields fetches_add_log)
qed

lemma contain_data_needed_reply_0:
  "fst (contain_data_needed (fixed_env ''0'' divs page) convo0 text q w) = Returns False"
  by (simp add: contain_data_needed_def last_content_def convo0_def do_chat_def fixed_env_def lower_def)

lemma best_search_results_reply_0:
  "fst (best_search_results (fixed_env ''0'' divs page) convo0 cs q w) = Returns i \<Longrightarrow> 0 \<le> i"
  by (auto simp: best_search_results_def last_content_def convo0_def range_3 do_chat_def
      fixed_env_def py_int_0 Let_def split: if_splits)

lemma query_generator_reply_0:
  "fst (query_generator (fixed_env ''0'' divs page) convo0 w) = Returns ''0''"
  by (simp add: query_generator_def last_content_def convo0_def do_chat_def fixed_env_def)

lemma search_three_candidates:
  "fst (search_duckduckgo (fixed_env ''0'' [titled ''a'', titled ''b'', titled ''c''] page) q w) =
     [candidate 0 ''a'', candidate 1 ''b'', candidate 2 ''c'']"
  by (simp add: search_duckduckgo_def fixed_env_def Let_def titled_def result_entry_def candidate_def)

text \<open>
  The theorem at a model that always answers \<^verbatim>\<open>0\<close>, three result blocks and pages
  that download: each judgement is made and is false.
\<close>

theorem three_irrelevant_candidates_witness:
  "fst (query_generator (fixed_env ''0'' [titled ''a'', titled ''b'', titled ''c''] (Some ''page''))
         convo0 (add_log Info_starting_search_process world0)) = Returns ''0'' \<and>
   length (fst (search_duckduckgo (fixed_env ''0'' [titled ''a'', titled ''b'', titled ''c''] (Some ''page''))
         ''0'' world0)) = 3 \<and>
   fst (contain_data_needed (fixed_env ''0'' [titled ''a'', titled ''b'', titled ''c''] (Some ''page''))
         convo0 ''page'' ''0'' world0) = Returns False \<and>
   fst (ai_search (fixed_env ''0'' [titled ''a'', titled ''b'', titled ''c''] (Some ''page''))
         convo0 world0) = None \<and>
   selections (snd (ai_search (fixed_env ''0'' [titled ''a'', titled ''b'', titled ''c''] (Some ''page''))
         convo0 world0)) = 5 \<and>
   fetches (snd (ai_search (fixed_env ''0'' [titled ''a'', titled ''b'', titled ''c''] (Some ''page''))
         convo0 world0)) = 3"
proof -
  let ?e = "fixed_env ''0'' [titled ''a'', titled ''b'', titled ''c''] (Some ''page'')"
  have h1: "fst (query_generator ?e convo0 (add_log Info_starting_search_process world0)) = Returns ''0''"
    by (rule query_generator_reply_0)
  have h2: "length (fst (search_duckduckgo ?e (remove_double_quotes ''0'')
                  (snd (query_generator ?e convo0 (add_log Info_starting_search_process world0))))) = 3"
    by (simp add: search_three_candidates)
  have h3: "\<And>page w. fst (contain_data_needed ?e convo0 page (remove_double_quotes ''0'') w) = Returns False"
    by (rule contain_data_needed_reply_0)
  have h4: "\<And>cs w i. fst (best_search_results ?e convo0 cs (remove_double_quotes ''0'') w) = Returns i \<Longrightarrow> 0 \<le> i"
    by (rule best_search_results_reply_0)
  show ?thesis
    using three_irrelevant_candidates [of ?e convo0 world0 "''0''", OF h1 h2 h3 h4] h1
    by (simp add: search_three_candidates contain_data_needed_reply_0 world0_def fetches_def)
qed

text \<open>
  C3 as stated fails: the run is said to return before a fourth attempt. With three
  candidates and every judgement false the run enters \<^verbatim>\<open>best_search_results\<close> 5
  times, and the log shows the two warnings of the fourth and the fifth attempt before
  the closing warning.
\<close>

theorem returns_only_after_fifth_attempt_counterexample:
  "length (fst (search_duckduckgo (fixed_env ''0'' [titled ''a'', titled ''b'', titled ''c''] (Some ''page''))
         ''0'' world0)) = 3 \<and>
   fst (contain_data_needed (fixed_env ''0'' [titled ''a'', titled ''b'', titled ''c''] (Some ''page''))
         convo0 ''page'' ''0'' world0) = Returns False \<and>
   fst (ai_search (fixed_env ''0'' [titled ''a'', titled ''b'', titled ''c''] (Some ''page''))
         convo0 world0) = None \<and>
   selections (snd (ai_search (fixed_env ''0'' [titled ''a'', titled ''b'', titled ''c''] (Some ''page''))
         convo0 world0)) = 5 \<and>
   logged (snd (ai_search (fixed_env ''0'' [titled ''a'', titled ''b'', titled ''c''] (Some ''page''))
         convo0 world0)) =
     [Info_starting_search_process, Info_found_search_results 3,
      Warning_invalid_result_index 0, Warning_invalid_result_index 0,
      Warning_could_not_find_relevant_content 5]"
proof -
  let ?e = "fixed_env ''0'' [titled ''a'', titled ''b'', titled ''c''] (Some ''page'')"
  have ai: "ai_search ?e convo0 world0 = (None, snd (ai_search ?e convo0 world0)) \<and>
      selections (snd (ai_search ?e convo0 world0)) = 5 \<and>
      logged (snd (ai_search ?e convo0 world0)) =
       [Info_starting_search_process, Info_found_search_results 3,
        Warning_invalid_result_index 0, Warning_invalid_result_index 0,
        Warning_could_not_find_relevant_content 5]"
    by (simp add: ai_search_def query_generator_def last_content_def convo0_def do_chat_def
      range_5 for_attempts_empty world0_def add_log_def add_call_def
      attempt_body_def best_search_results_def range_3 fixed_env_def py_int_0 py_index_def
      Let_def scrape_page_def pop_at_def remove_double_quotes_def search_duckduckgo_def
      titled_def contain_data_needed_def lower_def max_attempts_def)
  then have "fst (ai_search ?e convo0 world0) = None"
    by (metis fst_conv)
  then show ?thesis
    using ai by (simp add: search_three_candidates contain_data_needed_reply_0)
qed

section \<open>The index check in the loop\<close>

text \<open>
  C4, as amended. When the index check of the loop fires (the selected index is not below
  the length of the candidate list), the list is empty and the index is 0, the selection
  made no call, the attempt only logs the warning, and it does use up one turn of the
  loop: the loop goes on with the turns that remain, all of which end the same way, so
  the loop falls through with no further call.
\<close>

theorem guard_skip_uses_up_attempt:
  assumes sel: "best_search_results e convo cands q w = (Returns idx, w1)"
    and guard: "idx \<ge> int (length cands)"
  shows "cands = [] \<and> idx = 0 \<and> calls w1 = calls w \<and>
     attempt_body e convo q cands w =
       (Next_attempt cands, add_log (Warning_invalid_result_index idx) w1) \<and>
     for_attempts e convo q (attempt # rest) cands w =
       for_attempts e convo q rest cands (add_log (Warning_invalid_result_index idx) w1) \<and>
     fst (for_attempts e convo q (attempt # rest) cands w) = Exhausted \<and>
     calls (snd (snd (for_attempts e convo q (attempt # rest) cands w))) = calls w"
proof -
  have e: "cands = []" "idx = 0" "w1 = w\<lparr>selections := Suc (selections w)\<rparr>"
    using guard_only_on_empty [OF sel guard] by auto
  have body: "attempt_body e convo q cands w =
       (Next_attempt cands, add_log (Warning_invalid_result_index idx) w1)"
    using sel guard by (simp add: attempt_body_def)
  show ?thesis
    using e body by (simp add: for_attempts_empty add_log_fields)
qed

text \<open>The theorem at an empty candidate list with the turns 3 and 4 still to come.\<close>

theorem guard_skip_uses_up_attempt_witness:
  "best_search_results (fixed_env ''0'' [] None) convo0 [] ''0'' world0 =
     (Returns 0, world0\<lparr>selections := 1\<rparr>) \<and>
   (0 :: int) \<ge> int (length ([] :: search_result list)) \<and>
   for_attempts (fixed_env ''0'' [] None) convo0 ''0'' [3, 4] [] world0 =
     for_attempts (fixed_env ''0'' [] None) convo0 ''0'' [4] []
       (add_log (Warning_invalid_result_index 0) (world0\<lparr>selections := 1\<rparr>)) \<and>
   fst (for_attempts (fixed_env ''0'' [] None) convo0 ''0'' [3, 4] [] world0) = Exhausted"
proof -
  have h1: "best_search_results (fixed_env ''0'' [] None) convo0 [] ''0'' world0 =
     (Returns 0, world0\<lparr>selections := 1\<rparr>)"
    by (simp add: best_search_results_empty world0_def)
  have h2: "(0 :: int) \<ge> int (length ([] :: search_result list))" by simp
  note t = guard_skip_uses_up_attempt [OF h1 h2, of 3 "[4]"]
  from t have a: "for_attempts (fixed_env ''0'' [] None) convo0 ''0'' [3, 4] [] world0 =
     for_attempts (fixed_env ''0'' [] None) convo0 ''0'' [4] []
       (add_log (Warning_invalid_result_index 0) (world0\<lparr>selections := 1\<rparr>))"
    by blast
  from t have b: "fst (for_attempts (fixed_env ''0'' [] None) convo0 ''0'' [3, 4] [] world0) = Exhausted"
    by blast
  show ?thesis
    using h1 h2 a b by blast
qed

text \<open>
  C4 as stated fails: the skipped turn is said not to use up one of the 5 retries. With
  the last turn left and the check firing, the loop falls through at once; and in the run
  with one candidate whose page cannot be fetched, four of the 5 turns are skipped and
  one does the work of fetching.
\<close>

theorem guard_skip_last_attempt_counterexample:
  "fst (best_search_results (fixed_env ''0'' [titled ''a''] None) convo0 [] ''0'' world0) = Returns 0 \<and>
   (0 :: int) \<ge> int (length ([] :: search_result list)) \<and>
   for_attempts (fixed_env ''0'' [titled ''a''] None) convo0 ''0'' [4] [] world0 =
     (Exhausted, [], \<lparr>calls = [], logged = [Warning_invalid_result_index 0], selections = 1\<rparr>) \<and>
   selections (snd (ai_search (fixed_env ''0'' [titled ''a''] None) convo0 world0)) = 5 \<and>
   fetches (snd (ai_search (fixed_env ''0'' [titled ''a''] None) convo0 world0)) = 1"
proof -
  have ai: "selections (snd (ai_search (fixed_env ''0'' [titled ''a''] None) convo0 world0)) = 5 \<and>
     fetches (snd (ai_search (fixed_env ''0'' [titled ''a''] None) convo0 world0)) = 1"
    by (simp add: ai_search_def query_generator_def last_content_def convo0_def do_chat_def
      range_5 for_attempts_empty world0_def add_log_def add_call_def
      attempt_body_def best_search_results_def range_3 fixed_env_def py_int_0 py_index_def
      Let_def scrape_page_def pop_at_def remove_double_quotes_def search_duckduckgo_def
      titled_def max_attempts_def fetches_def)
  show ?thesis
    using ai by (simp add: best_search_results_empty for_attempts_empty world0_def)
qed

section \<open>Reading a yes/no answer\<close>

lemma map_eq_4:
  "map f w = [a, b, c, d] \<longleftrightarrow>
     (\<exists>t r u e. w = [t, r, u, e] \<and> f t = a \<and> f r = b \<and> f u = c \<and> f e = d)"
  by (auto simp: map_eq_Cons_conv)

lemma map_lower_true:
  "map lower_char w = ''true'' \<longleftrightarrow>
     (\<exists>t r u e. w = [t, r, u, e] \<and> (t = CHR ''t'' \<or> t = CHR ''T'') \<and>
        (r = CHR ''r'' \<or> r = CHR ''R'') \<and> (u = CHR ''u'' \<or> u = CHR ''U'') \<and>
        (e = CHR ''e'' \<or> e = CHR ''E''))"
  unfolding map_eq_4 lower_char_t lower_char_r lower_char_u lower_char_e ..

lemma str_in_map:
  "str_in sub (map f s) \<longleftrightarrow> (\<exists>pre w suf. s = pre @ w @ suf \<and> map f w = sub)"
proof
  assume "str_in sub (map f s)"
  then obtain p x where "map f s = p @ sub @ x" unfolding str_in_iff by blast
  then have "\<exists>us vs. s = us @ vs \<and> p = map f us \<and> sub @ x = map f vs"
    by (simp only: map_eq_append_conv)
  then obtain us vs where s: "s = us @ vs" and v: "map f vs = sub @ x"
    by auto
  from v have "\<exists>ws xs. vs = ws @ xs \<and> sub = map f ws \<and> x = map f xs"
    by (simp only: map_eq_append_conv)
  then obtain ws xs where "vs = ws @ xs" and "map f ws = sub"
    by auto
  then have "s = us @ ws @ xs \<and> map f ws = sub" using s by simp
  then show "\<exists>pre w suf. s = pre @ w @ suf \<and> map f w = sub" by blast
next
  assume "\<exists>pre w suf. s = pre @ w @ suf \<and> map f w = sub"
  then obtain pre w suf where "s = pre @ w @ suf" "map f w = sub" by blast
  then have "map f s = map f pre @ sub @ map f suf" by simp
  then show "str_in sub (map f s)" unfolding str_in_iff by blast
qed

lemma str_in_true_lower: "str_in ''true'' (lower s) \<longleftrightarrow> contains_true_ignoring_case s"
  unfolding lower_def str_in_map map_lower_true contains_true_ignoring_case_def
  by blast

text \<open>
  C6. \<^verbatim>\<open>check_search_or_not\<close> returns true exactly when the call succeeds and the
  reply contains the letters of \<^verbatim>\<open>true\<close> in a row, in any case; a failed call
  gives false. \<^verbatim>\<open>contain_data_needed\<close> reads the reply by the same rule, whatever the
  page text; it raises only when the conversation is empty, since its message is built
  before the \<^verbatim>\<open>try\<close>.
\<close>

theorem judgements_read_true_ignoring_case:
  "fst (check_search_or_not e convo w) =
     (\<exists>user_prompt reply. last_content convo = Returns user_prompt \<and>
        chat e (calls w) [should_search_decision_agent, user_message user_prompt] = Returns reply \<and>
        contains_true_ignoring_case reply) \<and>
   fst (contain_data_needed e convo page q w) =
     (case last_content convo of
        Raises \<Rightarrow> Raises
      | Returns user_prompt \<Rightarrow>
          Returns (\<exists>reply. chat e (calls w)
                     [page_content_validator_agent,
                      user_message (page_content_msg page user_prompt q)] = Returns reply \<and>
                   contains_true_ignoring_case reply))"
  by (auto simp: check_search_or_not_def contain_data_needed_def do_chat_def str_in_true_lower
      split: outcome.splits)

lemma lower_examples:
  "lower ''True.'' = ''true.''" "lower ''TRUE'' = ''true''" "lower ''false'' = ''false''"
  by code_simp+

text \<open>The theorem at the replies \<^verbatim>\<open>True.\<close>, \<^verbatim>\<open>TRUE\<close> and \<^verbatim>\<open>false\<close>.\<close>

theorem judgements_read_true_ignoring_case_witness:
  "fst (check_search_or_not (fixed_env ''True.'' [] None) convo0 world0) \<and>
   contains_true_ignoring_case ''True.'' \<and>
   fst (contain_data_needed (fixed_env ''TRUE'' [] None) convo0 ''page'' ''q'' world0) = Returns True \<and>
   contains_true_ignoring_case ''TRUE'' \<and>
   \<not> fst (check_search_or_not (fixed_env ''false'' [] None) convo0 world0) \<and>
   \<not> contains_true_ignoring_case ''false''"
proof -
  have a: "fst (check_search_or_not (fixed_env ''True.'' [] None) convo0 world0)"
    by (simp add: check_search_or_not_def last_content_def convo0_def do_chat_def fixed_env_def
        lower_examples)
  have b: "fst (contain_data_needed (fixed_env ''TRUE'' [] None) convo0 ''page'' ''q'' world0) = Returns True"
    by (simp add: contain_data_needed_def last_content_def convo0_def do_chat_def fixed_env_def
        lower_examples)
  have c: "\<not> fst (check_search_or_not (fixed_env ''false'' [] None) convo0 world0)"
    by (simp add: check_search_or_not_def last_content_def convo0_def do_chat_def fixed_env_def
        lower_examples)
  have l: "last_content convo0 = Returns ''hi''"
    by (simp add: last_content_def convo0_def user_message_def)
  show ?thesis
    using a b c l
      judgements_read_true_ignoring_case [of "fixed_env ''True.'' [] None" convo0 world0 "''page''" "''q''"]
      judgements_read_true_ignoring_case [of "fixed_env ''TRUE'' [] None" convo0 world0 "''page''" "''q''"]
      judgements_read_true_ignoring_case [of "fixed_env ''false'' [] None" convo0 world0 "''page''" "''q''"]
    by (simp add: fixed_env_def)
qed

section \<open>The candidates a search returns\<close>

lemma entry_of_untitled: "title_tag d = None \<Longrightarrow> entry_of (i, d) = []"
  by (simp add: entry_of_def)

lemma entry_of_titled:
  "title_tag d = Some t \<Longrightarrow> href t = Some l \<Longrightarrow> entry_of (i, d) = [result_entry i l d]"
  by (simp add: entry_of_def)

lemma broken_title_untitled: "title_tag d = None \<Longrightarrow> \<not> broken_title d"
  by (simp add: broken_title_def)

lemma broken_title_titled: "title_tag d = Some t \<Longrightarrow> broken_title d = (href t = None)"
  by (simp add: broken_title_def)

lemma scan_divs_closed:
  "scan_divs i ds acc =
     (if \<exists>d\<in>set (take (10 - i) ds). broken_title d then Raises
      else Returns (acc @ concat (map entry_of (zip [i..<10] ds))))"
proof (induction ds arbitrary: i acc)
  case Nil
  then show ?case by simp
next
  case (Cons d ds)
  show ?case
  proof (cases "i \<ge> 10")
    case True
    then show ?thesis by simp
  next
    case False
    then have up: "[i..<10] = i # [Suc i..<10]" by (simp add: upt_conv_Cons)
    have "10 - i = Suc (10 - Suc i)" using False by arith
    then have tk: "take (10 - i) (d # ds) = d # take (10 - Suc i) ds"
      by (simp only: take_Suc_Cons)
    show ?thesis
    proof (cases "title_tag d")
      case None
      then show ?thesis
        using False by (simp add: Cons.IH up tk entry_of_untitled broken_title_untitled)
    next
      case (Some t)
      then show ?thesis
        using False
        by (cases "href t") (simp_all add: Cons.IH up tk entry_of_titled broken_title_titled)
    qed
  qed
qed

lemma entry_ids_in_range:
  "r \<in> set (concat (map entry_of (zip [i..<n] ds))) \<Longrightarrow> i \<le> result_id r \<and> result_id r < n"
  by (auto simp: entry_of_def result_entry_def set_zip split: option.splits)

lemma entry_ids_increasing:
  "sorted_wrt (<) (map result_id (concat (map entry_of (zip [i..<n] ds))))"
proof (induction ds arbitrary: i)
  case Nil
  then show ?case by simp
next
  case (Cons d ds)
  show ?case
  proof (cases "i < n")
    case False
    then show ?thesis by simp
  next
    case True
    then have up: "[i..<n] = i # [Suc i..<n]" by (simp add: upt_conv_Cons)
    have later: "\<forall>r\<in>set (concat (map entry_of (zip [Suc i..<n] ds))). i < result_id r"
    proof
      fix r
      assume "r \<in> set (concat (map entry_of (zip [Suc i..<n] ds)))"
      from entry_ids_in_range [OF this] show "i < result_id r" by simp
    qed
    have "map result_id (entry_of (i, d)) = [] \<or> map result_id (entry_of (i, d)) = [i]"
      by (auto simp: entry_of_def result_entry_def split: option.splits)
    then show ?thesis
      using Cons.IH [of "Suc i"] later by (auto simp: up)
  qed
qed

lemma length_entries: "length (concat (map entry_of (zip [i..<n] ds))) \<le> n - i"
proof -
  have "length (concat (map entry_of ps)) \<le> length ps" for ps
    by (induction ps) (auto simp: entry_of_def split: option.splits)
  from this [of "zip [i..<n] ds"] show ?thesis by simp
qed

lemma increasing_above_rank:
  fixes xs :: "nat list"
  shows "sorted_wrt (<) xs \<Longrightarrow> k < length xs \<Longrightarrow> k \<le> xs ! k"
proof (induction k)
  case 0
  then show ?case by simp
next
  case (Suc k)
  then have "xs ! k < xs ! Suc k" by (simp add: sorted_wrt_nth_less)
  moreover have "k \<le> xs ! k" using Suc by simp
  ultimately show ?case by simp
qed

text \<open>
  C7, as amended. \<^verbatim>\<open>search_duckduckgo\<close> looks at the first 10 result blocks and
  returns, in their order, one candidate for each of them that has a title link; the
  \<^verbatim>\<open>id\<close> of a candidate is the position of its block among all blocks found. So at
  most 10 candidates are returned, their ids increase strictly, stay below 10 and are at
  least the candidate's rank in the returned list. A failed request or parse (a title
  anchor without \<^verbatim>\<open>href\<close> among the blocks looked at included) gives the empty list.
\<close>

theorem search_ids_are_block_positions:
  "fst (search_duckduckgo e q w) =
     (case http_get e (calls w) (''https://duckduckgo.com/html/?q='' @ q) of
        Raises \<Rightarrow> []
      | Returns divs \<Rightarrow>
          if \<exists>d\<in>set (take 10 divs). broken_title d then []
          else concat (map entry_of (zip [0..<10] divs))) \<and>
   length (fst (search_duckduckgo e q w)) \<le> 10 \<and>
   sorted_wrt (<) (map result_id (fst (search_duckduckgo e q w))) \<and>
   (\<forall>k<length (fst (search_duckduckgo e q w)).
      k \<le> result_id (fst (search_duckduckgo e q w) ! k) \<and>
      result_id (fst (search_duckduckgo e q w) ! k) < 10)"
proof -
  let ?res = "fst (search_duckduckgo e q w)"
  have closed: "?res =
     (case http_get e (calls w) (''https://duckduckgo.com/html/?q='' @ q) of
        Raises \<Rightarrow> []
      | Returns divs \<Rightarrow>
          if \<exists>d\<in>set (take 10 divs). broken_title d then []
          else concat (map entry_of (zip [0..<10] divs)))"
    by (simp add: search_duckduckgo_def Let_def scan_divs_closed split: outcome.splits)
  then consider "?res = []" | divs where "?res = concat (map entry_of (zip [0..<10] divs))"
    by (auto split: outcome.splits if_splits)
  then have props: "length ?res \<le> 10 \<and> sorted_wrt (<) (map result_id ?res) \<and>
      (\<forall>r\<in>set ?res. result_id r < 10)"
  proof cases
    case 1
    then show ?thesis by simp
  next
    case 2
    then show ?thesis
      using length_entries [of 0 10 divs] entry_ids_increasing [of 0 10 divs]
        entry_ids_in_range [of _ 0 10 divs] by auto
  qed
  have "k \<le> result_id (?res ! k) \<and> result_id (?res ! k) < 10" if "k < length ?res" for k
    using increasing_above_rank [of "map result_id ?res" k] props that by auto
  then show ?thesis using closed props by blast
qed

lemma search_skipped_block:
  "fst (search_duckduckgo (fixed_env ''0'' [untitled, titled ''b''] None) q w) = [candidate 1 ''b'']"
  by (simp add: search_duckduckgo_def fixed_env_def Let_def titled_def untitled_def
      result_entry_def candidate_def)

text \<open>The theorem at a page whose first block has no title link and whose second has one.\<close>

theorem search_ids_are_block_positions_witness:
  "fst (search_duckduckgo (fixed_env ''0'' [untitled, titled ''b''] None) ''q'' world0) =
     [candidate 1 ''b''] \<and>
   (0 :: nat) < length [candidate 1 ''b''] \<and>
   (0 :: nat) \<le> result_id (candidate 1 ''b'') \<and> result_id (candidate 1 ''b'') < 10"
proof -
  let ?res = "fst (search_duckduckgo (fixed_env ''0'' [untitled, titled ''b''] None) ''q'' world0)"
  have r: "?res = [candidate 1 ''b'']" by (rule search_skipped_block)
  from search_ids_are_block_positions [of "fixed_env ''0'' [untitled, titled ''b''] None" "''q''" world0]
  have "\<forall>k<length ?res. k \<le> result_id (?res ! k) \<and> result_id (?res ! k) < 10"
    by blast
  then have "result_id (candidate 1 ''b'') < 10" unfolding r by simp
  then show ?thesis using r by simp
qed

text \<open>
  C7 as stated fails: a block without title link is said to use up neither an index nor
  one of the 10 slots. With an untitled block before a titled one the candidate returned
  first has id 1; and of eleven blocks of which the last ten have a title link only nine
  candidates are returned.
\<close>

theorem skipped_block_uses_index_and_slot_counterexample:
  "fst (search_duckduckgo (fixed_env ''0'' [untitled, titled ''b''] None) ''q'' world0) =
     [candidate 1 ''b''] \<and>
   result_id (fst (search_duckduckgo (fixed_env ''0'' [untitled, titled ''b''] None) ''q'' world0) ! 0) = 1 \<and>
   length (filter (\<lambda>d. title_tag d \<noteq> None) eleven_blocks) = 10 \<and>
   length (fst (search_duckduckgo (fixed_env ''0'' eleven_blocks None) ''q'' world0)) = 9"
  by (simp add: search_skipped_block candidate_def)
     (simp add: search_duckduckgo_def fixed_env_def Let_def titled_def untitled_def
      eleven_blocks_def)

section \<open>An empty search result\<close>

lemma query_generator_calls:
  assumes "query_generator e convo w = (Returns g, w')"
  shows "\<exists>user_prompt. last_content convo = Returns user_prompt \<and>
     calls w' = calls w @
       [Chat [search_query_generator_agent,
              user_message (''CREATE A SEARCH QUERY FOR THE FOLLOWING QUESTION: \<newline>'' @ user_prompt)]]"
  using assms
  by (auto simp: query_generator_def Let_def do_chat_def add_call_def add_log_def
      split: outcome.splits)

text \<open>
  C9, as amended. When the search returns no candidate, \<^verbatim>\<open>ai_search\<close> returns
  \<^verbatim>\<open>None\<close> having made exactly two calls: the model call of \<^verbatim>\<open>query_generator\<close>,
  which comes before the search, and the search request. No page is fetched, no
  selection is entered and no further model call is made.
\<close>

theorem empty_search_ends_run:
  assumes gen: "fst (query_generator e convo (add_log Info_starting_search_process w)) = Returns g"
    and empty: "fst (search_duckduckgo e (remove_double_quotes g)
                  (snd (query_generator e convo (add_log Info_starting_search_process w)))) = []"
  shows "fst (ai_search e convo w) = None \<and>
     (\<exists>user_prompt. last_content convo = Returns user_prompt \<and>
        calls (snd (ai_search e convo w)) = calls w @
          [Chat [search_query_generator_agent,
                 user_message (''CREATE A SEARCH QUERY FOR THE FOLLOWING QUESTION: \<newline>'' @ user_prompt)],
           Http_get (''https://duckduckgo.com/html/?q='' @ remove_double_quotes g)]) \<and>
     model_calls (snd (ai_search e convo w)) = Suc (model_calls w) \<and>
     fetches (snd (ai_search e convo w)) = fetches w \<and>
     selections (snd (ai_search e convo w)) = selections w"
proof -
  let ?w0 = "add_log Info_starting_search_process w"
  obtain w1 where qg: "query_generator e convo ?w0 = (Returns g, w1)"
    using gen by (cases "query_generator e convo ?w0") simp
  obtain w2 where sd: "search_duckduckgo e (remove_double_quotes g) w1 = ([], w2)"
    using empty qg by (cases "search_duckduckgo e (remove_double_quotes g) w1") simp
  have ai: "ai_search e convo w = (None, add_log Warning_no_search_results_found w2)"
    using qg sd by (simp add: ai_search_def)
  obtain user_prompt where u: "last_content convo = Returns user_prompt"
    and c1: "calls w1 = calls w @
       [Chat [search_query_generator_agent,
              user_message (''CREATE A SEARCH QUERY FOR THE FOLLOWING QUESTION: \<newline>'' @ user_prompt)]]"
    using query_generator_calls [OF qg] by (auto simp: add_log_fields)
  have c2: "calls w2 = calls w1 @ [Http_get (''https://duckduckgo.com/html/?q='' @ remove_double_quotes g)]"
    and s2: "selections w2 = selections w1"
    using search_duckduckgo_world [OF sd] by auto
  have s1: "selections w1 = selections w"
    using query_generator_world [OF qg] by (simp add: add_log_fields)
  show ?thesis
    using ai u c1 c2 s1 s2 by (simp add: model_calls_def fetches_def add_log_fields)
qed

lemma search_no_blocks:
  "fst (search_duckduckgo (fixed_env r [] p) q w) = []"
  by (simp add: search_duckduckgo_def fixed_env_def Let_def)

text \<open>The theorem at a search page without result blocks.\<close>

theorem empty_search_ends_run_witness:
  "fst (query_generator (fixed_env ''0'' [] None) convo0 (add_log Info_starting_search_process world0)) =
     Returns ''0'' \<and>
   fst (search_duckduckgo (fixed_env ''0'' [] None) ''0'' world0) = [] \<and>
   fst (ai_search (fixed_env ''0'' [] None) convo0 world0) = None \<and>
   fetches (snd (ai_search (fixed_env ''0'' [] None) convo0 world0)) = 0 \<and>
   selections (snd (ai_search (fixed_env ''0'' [] None) convo0 world0)) = 0"
proof -
  let ?e = "fixed_env ''0'' [] None"
  have h1: "fst (query_generator ?e convo0 (add_log Info_starting_search_process world0)) = Returns ''0''"
    by (rule query_generator_reply_0)
  have h2: "fst (search_duckduckgo ?e (remove_double_quotes ''0'')
                  (snd (query_generator ?e convo0 (add_log Info_starting_search_process world0)))) = []"
    by (rule search_no_blocks)
  show ?thesis
    using empty_search_ends_run [OF h1 h2] h1
    by (simp add: search_no_blocks world0_def fetches_def)
qed

text \<open>
  C9 as stated fails: the run is said to make no model call. With a search page without
  result blocks the run returns \<^verbatim>\<open>None\<close> and has made one model call, the one that
  generated the query.
\<close>

theorem query_generation_is_a_model_call_counterexample:
  "fst (search_duckduckgo (fixed_env ''0'' [] None) ''0'' world0) = [] \<and>
   fst (ai_search (fixed_env ''0'' [] None) convo0 world0) = None \<and>
   model_calls world0 = 0 \<and>
   model_calls (snd (ai_search (fixed_env ''0'' [] None) convo0 world0)) = 1 \<and>
   calls (snd (ai_search (fixed_env ''0'' [] None) convo0 world0)) =
     [Chat [search_query_generator_agent,
            user_message (''CREATE A SEARCH QUERY FOR THE FOLLOWING QUESTION: \<newline>'' @ ''hi'')],
      Http_get ''https://duckduckgo.com/html/?q=0'']"
proof -
  have ai: "ai_search (fixed_env ''0'' [] None) convo0 world0 =
      (None, snd (ai_search (fixed_env ''0'' [] None) convo0 world0)) \<and>
    calls (snd (ai_search (fixed_env ''0'' [] None) convo0 world0)) =
     [Chat [search_query_generator_agent,
            user_message (''CREATE A SEARCH QUERY FOR THE FOLLOWING QUESTION: \<newline>'' @ ''hi'')],
      Http_get ''https://duckduckgo.com/html/?q=0'']"
    by (simp add: ai_search_def query_generator_def last_content_def convo0_def do_chat_def
      world0_def add_log_def add_call_def fixed_env_def Let_def remove_double_quotes_def
      search_duckduckgo_def user_message_def)
  then have "fst (ai_search (fixed_env ''0'' [] None) convo0 world0) = None"
    by (metis fst_conv)
  then show ?thesis
    using ai by (simp add: search_no_blocks model_calls_def world0_def)
qed

section \<open>Double quotes in the search query\<close>

lemma no_quote_left: "CHR 0x22 \<notin> set (remove_double_quotes s)"
  by (simp add: remove_double_quotes_def)

lemma select_tries_calls_exact:
  "select_tries e msgs len ns w = (i, w') \<Longrightarrow> \<exists>k. calls w' = calls w @ replicate k (Chat msgs)"
proof (induction ns arbitrary: w)
  case Nil
  then have "calls w' = calls w @ replicate 0 (Chat msgs)" by simp
  then show ?case by blast
next
  case (Cons n ns)
  let ?w1 = "add_call (Chat msgs) w"
  have c1: "calls ?w1 = calls w @ [Chat msgs]" by (simp add: add_call_def)
  consider (stop) "w' = ?w1"
    | (more) l where "select_tries e msgs len ns (add_log l ?w1) = (i, w')"
    using Cons.prems by (auto simp: do_chat_def split: outcome.splits option.splits)
  then show ?case
  proof cases
    case stop
    then have "calls w' = calls w @ replicate 1 (Chat msgs)" using c1 by simp
    then show ?thesis by blast
  next
    case more
    then obtain k where "calls w' = calls (add_log l ?w1) @ replicate k (Chat msgs)"
      using Cons.IH by blast
    then have "calls w' = calls w @ replicate (Suc k) (Chat msgs)"
      using c1 by (simp add: add_log_fields replicate_app_Cons_same)
    then show ?thesis by blast
  qed
qed

lemma best_search_results_uses_query:
  assumes "best_search_results e convo cs q w = (r, w')"
    and "last_content convo = Returns u"
  shows "\<exists>new. calls w' = calls w @ new \<and> (\<forall>c\<in>set new. uses_query e u q c)"
proof (cases "cs = []")
  case True
  then have "calls w' = calls w @ []" using assms by (auto simp: best_search_results_empty)
  then show ?thesis by fastforce
next
  case False
  let ?msgs = "[best_search_result_selector_agent, user_message (best_msg e cs u q)]"
  obtain i where "select_tries e ?msgs (length cs) [0..<3] (w\<lparr>selections := Suc (selections w)\<rparr>) = (i, w')"
    using assms False by (auto simp: best_search_results_def Let_def split: prod.splits)
  then obtain k where "calls w' = calls w @ replicate k (Chat ?msgs)"
    using select_tries_calls_exact by fastforce
  moreover have "uses_query e u q (Chat ?msgs)" unfolding uses_query_def by blast
  ultimately show ?thesis by auto
qed

lemma contain_data_needed_uses_query:
  assumes "contain_data_needed e convo page q w = (r, w')"
    and "last_content convo = Returns u"
  shows "calls w' = calls w @
     [Chat [page_content_validator_agent, user_message (page_content_msg page u q)]]"
  using assms
  by (auto simp: contain_data_needed_def do_chat_def add_call_def add_log_def
      split: outcome.splits)

lemma attempt_body_uses_query:
  assumes b: "attempt_body e convo q cands w = (st, w')"
    and u: "last_content convo = Returns u"
  shows "\<exists>new. calls w' = calls w @ new \<and> (\<forall>c\<in>set new. uses_query e u q c)"
proof -
  obtain r w1 where sel: "best_search_results e convo cands q w = (r, w1)"
    by (cases "best_search_results e convo cands q w")
  then obtain n1 where c1: "calls w1 = calls w @ n1" and q1: "\<forall>c\<in>set n1. uses_query e u q c"
    using best_search_results_uses_query [OF sel u] by blast
  show ?thesis
  proof (cases "w' = w1 \<or> (\<exists>l. w' = add_log l w1)")
    case True
    then have "calls w' = calls w @ n1" using c1 by (auto simp: add_log_fields)
    then show ?thesis using q1 by blast
  next
    case False
    then obtain idx k where r: "r = Returns idx" and k: "py_index (length cands) idx = Some k"
      and lt: "\<not> idx \<ge> int (length cands)"
      using b sel unfolding attempt_body_def
      by (auto split: outcome.splits if_splits option.splits)
    obtain pt w2 where sp: "scrape_page e (link (cands ! k)) w1 = (pt, w2)"
      by (cases "scrape_page e (link (cands ! k)) w1")
    have c2: "calls w2 = calls w @ n1 @ [Fetch_url (link (cands ! k))]"
      using scrape_page_world [OF sp] c1 by simp
    have f: "uses_query e u q (Fetch_url (link (cands ! k)))" unfolding uses_query_def by blast
    show ?thesis
    proof (cases "w' = w2")
      case True
      then show ?thesis using c2 q1 f by auto
    next
      case False
      have body: "(case pt of
            None \<Rightarrow> (Next_attempt (pop_at cands k), w2)
          | Some page_text \<Rightarrow>
              if page_text = [] then (Next_attempt (pop_at cands k), w2)
              else
                (case contain_data_needed e convo page_text q w2 of
                   (Raises, w3) \<Rightarrow> (Raise_exc, w3)
                 | (Returns relevant, w3) \<Rightarrow>
                     if relevant then
                       (Return_text page_text, add_log Info_found_relevant_content w3)
                     else (Next_attempt (pop_at cands k), w3))) = (st, w')"
        using b sel r k lt sp by (simp add: attempt_body_def)
      then obtain page where pt: "pt = Some page" and pne: "page \<noteq> []"
        using False by (cases pt) (auto split: if_splits)
      obtain rr w3 where cd: "contain_data_needed e convo page q w2 = (rr, w3)"
        by (cases "contain_data_needed e convo page q w2")
      have w': "w' = w3 \<or> (\<exists>l. w' = add_log l w3)"
        using body pt pne cd by (cases rr) (auto split: if_splits)
      have "calls w3 = calls w2 @
         [Chat [page_content_validator_agent, user_message (page_content_msg page u q)]]"
        using cd u by (rule contain_data_needed_uses_query)
      then have "calls w' = calls w @ n1 @ [Fetch_url (link (cands ! k)),
         Chat [page_content_validator_agent, user_message (page_content_msg page u q)]]"
        using w' c2 by (auto simp: add_log_fields)
      moreover have "uses_query e u q
         (Chat [page_content_validator_agent, user_message (page_content_msg page u q)])"
        unfolding uses_query_def by blast
      ultimately show ?thesis using q1 f by auto
    qed
  qed
qed

lemma for_attempts_uses_query:
  assumes u: "last_content convo = Returns u"
  shows "for_attempts e convo q ns cands w = (x, cands', w') \<Longrightarrow>
     \<exists>new. calls w' = calls w @ new \<and> (\<forall>c\<in>set new. uses_query e u q c)"
proof (induction ns arbitrary: cands w)
  case Nil
  then have "calls w' = calls w @ []" by simp
  then show ?case by fastforce
next
  case (Cons n ns)
  obtain st w1 where b: "attempt_body e convo q cands w = (st, w1)"
    by (cases "attempt_body e convo q cands w")
  then obtain n1 where c1: "calls w1 = calls w @ n1" and q1: "\<forall>c\<in>set n1. uses_query e u q c"
    using attempt_body_uses_query [OF b u] by blast
  show ?case
  proof (cases st)
    case (Next_attempt cs1)
    then have "for_attempts e convo q ns cs1 w1 = (x, cands', w')" using Cons.prems b by simp
    then obtain n2 where "calls w' = calls w1 @ n2" and "\<forall>c\<in>set n2. uses_query e u q c"
      using Cons.IH by blast
    then have "calls w' = calls w @ (n1 @ n2) \<and> (\<forall>c\<in>set (n1 @ n2). uses_query e u q c)"
      using c1 q1 by auto
    then show ?thesis by blast
  next
    case (Return_text t)
    then have "w' = w1" using Cons.prems b by simp
    then show ?thesis using c1 q1 by blast
  next
    case Raise_exc
    then have "w' = w1" using Cons.prems b by simp
    then show ?thesis using c1 q1 by blast
  qed
qed

lemma ai_search_uses_query:
  assumes qg: "query_generator e convo (add_log Info_starting_search_process w) = (Returns g, w1)"
  shows "\<exists>user_prompt rest. last_content convo = Returns user_prompt \<and>
     calls (snd (ai_search e convo w)) =
       calls w @
       [Chat [search_query_generator_agent,
              user_message (''CREATE A SEARCH QUERY FOR THE FOLLOWING QUESTION: \<newline>'' @ user_prompt)],
        Http_get (''https://duckduckgo.com/html/?q='' @ remove_double_quotes g)] @ rest \<and>
     (\<forall>c\<in>set rest. uses_query e user_prompt (remove_double_quotes g) c)"
proof -
  let ?q = "remove_double_quotes g"
  obtain u where u: "last_content convo = Returns u"
    and c1: "calls w1 = calls w @
       [Chat [search_query_generator_agent,
              user_message (''CREATE A SEARCH QUERY FOR THE FOLLOWING QUESTION: \<newline>'' @ u)]]"
    using query_generator_calls [OF qg] by (auto simp: add_log_fields)
  obtain cands w2 where sd: "search_duckduckgo e ?q w1 = (cands, w2)"
    by (cases "search_duckduckgo e ?q w1")
  have c2: "calls w2 = calls w @
       [Chat [search_query_generator_agent,
              user_message (''CREATE A SEARCH QUERY FOR THE FOLLOWING QUESTION: \<newline>'' @ u)],
        Http_get (''https://duckduckgo.com/html/?q='' @ ?q)]"
    using search_duckduckgo_world [OF sd] c1 by simp
  have "\<exists>rest. calls (snd (ai_search e convo w)) = calls w2 @ rest \<and>
      (\<forall>c\<in>set rest. uses_query e u ?q c)"
  proof (cases "cands = []")
    case True
    then have "ai_search e convo w = (None, add_log Warning_no_search_results_found w2)"
      using qg sd by (simp add: ai_search_def)
    then have "calls (snd (ai_search e convo w)) = calls w2 @ []" by (simp add: add_log_fields)
    then show ?thesis by fastforce
  next
    case False
    obtain x c3 w3 where fa: "for_attempts e convo ?q [0..<max_attempts] cands w2 = (x, c3, w3)"
      by (cases "for_attempts e convo ?q [0..<max_attempts] cands w2")
    then obtain rest where "calls w3 = calls w2 @ rest" and "\<forall>c\<in>set rest. uses_query e u ?q c"
      using for_attempts_uses_query [OF u] by blast
    moreover have "calls (snd (ai_search e convo w)) = calls w3"
      using qg sd False fa by (cases x) (simp_all add: ai_search_def add_log_fields)
    ultimately show ?thesis by auto
  qed
  then show ?thesis using u c2 by auto
qed

text \<open>
  C8, as amended. \<^verbatim>\<open>query_generator\<close> returns the model's reply, or on a failed call
  the last message's content, unchanged. \<^verbatim>\<open>ai_search\<close> removes every double quote
  from that text before it uses it: the query holds no double quote, the search request
  that follows the query generation carries it, and every call of the run after that is
  a page fetch, a selection message built with that query or a validation message built
  with that query.
\<close>

theorem quotes_removed_by_ai_search:
  "fst (query_generator e convo w) =
     (case last_content convo of
        Raises \<Rightarrow> Raises
      | Returns user_prompt \<Rightarrow>
          (case chat e (calls w)
                  [search_query_generator_agent,
                   user_message (''CREATE A SEARCH QUERY FOR THE FOLLOWING QUESTION: \<newline>'' @ user_prompt)] of
             Raises \<Rightarrow> Returns user_prompt
           | Returns reply \<Rightarrow> Returns reply)) \<and>
   (\<forall>g. fst (query_generator e convo (add_log Info_starting_search_process w)) = Returns g \<longrightarrow>
      CHR 0x22 \<notin> set (remove_double_quotes g) \<and>
      (\<exists>user_prompt rest. last_content convo = Returns user_prompt \<and>
         calls (snd (ai_search e convo w)) =
           calls w @
           [Chat [search_query_generator_agent,
                  user_message (''CREATE A SEARCH QUERY FOR THE FOLLOWING QUESTION: \<newline>'' @ user_prompt)],
            Http_get (''https://duckduckgo.com/html/?q='' @ remove_double_quotes g)] @ rest \<and>
         (\<forall>c\<in>set rest. uses_query e user_prompt (remove_double_quotes g) c)))"
proof (intro conjI allI impI)
  show "fst (query_generator e convo w) =
     (case last_content convo of
        Raises \<Rightarrow> Raises
      | Returns user_prompt \<Rightarrow>
          (case chat e (calls w)
                  [search_query_generator_agent,
                   user_message (''CREATE A SEARCH QUERY FOR THE FOLLOWING QUESTION: \<newline>'' @ user_prompt)] of
             Raises \<Rightarrow> Returns user_prompt
           | Returns reply \<Rightarrow> Returns reply))"
    by (simp add: query_generator_def Let_def do_chat_def split: outcome.splits)
next
  fix g
  show "CHR 0x22 \<notin> set (remove_double_quotes g)" by (rule no_quote_left)
next
  fix g
  assume "fst (query_generator e convo (add_log Info_starting_search_process w)) = Returns g"
  then obtain w1 where "query_generator e convo (add_log Info_starting_search_process w) = (Returns g, w1)"
    by (cases "query_generator e convo (add_log Info_starting_search_process w)") simp
  then show "\<exists>user_prompt rest. last_content convo = Returns user_prompt \<and>
         calls (snd (ai_search e convo w)) =
           calls w @
           [Chat [search_query_generator_agent,
                  user_message (''CREATE A SEARCH QUERY FOR THE FOLLOWING QUESTION: \<newline>'' @ user_prompt)],
            Http_get (''https://duckduckgo.com/html/?q='' @ remove_double_quotes g)] @ rest \<and>
         (\<forall>c\<in>set rest. uses_query e user_prompt (remove_double_quotes g) c)"
    by (rule ai_search_uses_query)
qed

lemma query_generator_quoted:
  "fst (query_generator (fixed_env quoted_a [] None) convo0 w) = Returns quoted_a"
  by (simp add: query_generator_def last_content_def convo0_def do_chat_def fixed_env_def)

lemma remove_double_quotes_quoted: "remove_double_quotes quoted_a = ''a''"
  by (simp add: remove_double_quotes_def quoted_a_def)

lemma py_int_quoted: "py_int quoted_a = None"
  by (simp add: py_int_eval quoted_a_def)

lemma lower_quoted: "lower quoted_a = quoted_a"
  by (simp add: lower_def lower_char_def quoted_a_def)

lemma query_generator_quoting:
  "fst (query_generator quoting_env convo0 w) = Returns quoted_a"
  by (simp add: query_generator_def last_content_def convo0_def do_chat_def quoting_env_def
      fixed_env_def)

lemma ai_search_quoting_calls:
  "calls (snd (ai_search quoting_env convo0 world0)) =
     [Chat [search_query_generator_agent,
            user_message (''CREATE A SEARCH QUERY FOR THE FOLLOWING QUESTION: \<newline>'' @ ''hi'')],
      Http_get ''https://duckduckgo.com/html/?q=a'',
      Chat [best_search_result_selector_agent,
            user_message (''SEARCH_RESULTS: '' @ ''a'' @ '' \<newline>USER_PROMPT: '' @ ''hi'' @
                          '' \<newline>SEARCH_QUERY: '' @ ''a'')],
      Chat [best_search_result_selector_agent,
            user_message (''SEARCH_RESULTS: '' @ ''a'' @ '' \<newline>USER_PROMPT: '' @ ''hi'' @
                          '' \<newline>SEARCH_QUERY: '' @ ''a'')],
      Chat [best_search_result_selector_agent,
            user_message (''SEARCH_RESULTS: '' @ ''a'' @ '' \<newline>USER_PROMPT: '' @ ''hi'' @
                          '' \<newline>SEARCH_QUERY: '' @ ''a'')],
      Fetch_url ''a'',
      Chat [page_content_validator_agent,
            user_message (''PAGE_TEXT: '' @ ''page'' @ '' \<newline>USER_PROMPT: '' @ ''hi'' @
                          '' \<newline>SEARCH_QUERY: '' @ ''a'')]]"
  by (simp add: ai_search_def query_generator_def last_content_def convo0_def do_chat_def
      range_5 for_attempts_empty world0_def add_log_def add_call_def attempt_body_def
      best_search_results_def range_3 quoting_env_def fixed_env_def py_int_quoted py_index_def
      Let_def scrape_page_def pop_at_def remove_double_quotes_quoted search_duckduckgo_def
      titled_def contain_data_needed_def lower_quoted max_attempts_def user_message_def
      result_entry_def best_msg_def page_content_msg_def)

text \<open>A selection message built with the quoted text is not one built with the query.\<close>

lemma quoted_query_told_apart:
  "\<not> uses_query e u ''a''
       (Chat [best_search_result_selector_agent, user_message (best_msg e cs u quoted_a)])"
proof
  assume "uses_query e u ''a''
       (Chat [best_search_result_selector_agent, user_message (best_msg e cs u quoted_a)])"
  then consider cs' where "best_msg e cs' u ''a'' = best_msg e cs u quoted_a"
    | page where "page_content_msg page u ''a'' = best_msg e cs u quoted_a"
    by (auto simp: uses_query_def user_message_def)
  then show False
  proof cases
    case 1
    then have "last (best_msg e cs' u ''a'') = last (best_msg e cs u quoted_a)" by simp
    then show False by (simp add: best_msg_def quoted_a_def)
  next
    case 2
    then have "last (page_content_msg page u ''a'') = last (best_msg e cs u quoted_a)" by simp
    then show False by (simp add: best_msg_def page_content_msg_def quoted_a_def)
  qed
qed

text \<open>
  The theorem at a model that answers every call with a quoted letter, a search page with
  one result block and a page that downloads: the run reaches the selection and the
  validation, and their messages end with the query without its quotes.
\<close>

theorem quotes_removed_by_ai_search_witness:
  "fst (query_generator quoting_env convo0 (add_log Info_starting_search_process world0)) =
     Returns quoted_a \<and>
   last_content convo0 = Returns ''hi'' \<and>
   remove_double_quotes quoted_a = ''a'' \<and>
   CHR 0x22 \<notin> set ''a'' \<and>
   calls (snd (ai_search quoting_env convo0 world0)) ! 1 =
     Http_get ''https://duckduckgo.com/html/?q=a'' \<and>
   calls (snd (ai_search quoting_env convo0 world0)) ! 2 =
     Chat [best_search_result_selector_agent,
           user_message (''SEARCH_RESULTS: '' @ ''a'' @ '' \<newline>USER_PROMPT: '' @ ''hi'' @
                         '' \<newline>SEARCH_QUERY: '' @ ''a'')] \<and>
   calls (snd (ai_search quoting_env convo0 world0)) ! 6 =
     Chat [page_content_validator_agent,
           user_message (''PAGE_TEXT: '' @ ''page'' @ '' \<newline>USER_PROMPT: '' @ ''hi'' @
                         '' \<newline>SEARCH_QUERY: '' @ ''a'')] \<and>
   uses_query quoting_env ''hi'' ''a'' (calls (snd (ai_search quoting_env convo0 world0)) ! 2) \<and>
   uses_query quoting_env ''hi'' ''a'' (calls (snd (ai_search quoting_env convo0 world0)) ! 5) \<and>
   uses_query quoting_env ''hi'' ''a'' (calls (snd (ai_search quoting_env convo0 world0)) ! 6)"
proof -
  have h: "fst (query_generator quoting_env convo0 (add_log Info_starting_search_process world0)) =
     Returns quoted_a"
    by (rule query_generator_quoting)
  have l: "last_content convo0 = Returns ''hi''"
    by (simp add: last_content_def convo0_def user_message_def)
  from quotes_removed_by_ai_search [of quoting_env convo0 world0] h
  obtain user_prompt rest where u: "last_content convo0 = Returns user_prompt"
    and c: "calls (snd (ai_search quoting_env convo0 world0)) =
           calls world0 @
           [Chat [search_query_generator_agent,
                  user_message (''CREATE A SEARCH QUERY FOR THE FOLLOWING QUESTION: \<newline>'' @ user_prompt)],
            Http_get (''https://duckduckgo.com/html/?q='' @ remove_double_quotes quoted_a)] @ rest"
    and q: "\<forall>c\<in>set rest. uses_query quoting_env user_prompt (remove_double_quotes quoted_a) c"
    by blast
  have up: "user_prompt = ''hi''" using u l by simp
  have rest: "rest = drop 2 (calls (snd (ai_search quoting_env convo0 world0)))"
    using c by (simp add: world0_def)
  have "\<forall>c\<in>set (drop 2 (calls (snd (ai_search quoting_env convo0 world0)))).
      uses_query quoting_env ''hi'' ''a'' c"
    using q up rest by (simp add: remove_double_quotes_quoted)
  then have "uses_query quoting_env ''hi'' ''a'' (calls (snd (ai_search quoting_env convo0 world0)) ! 2) \<and>
     uses_query quoting_env ''hi'' ''a'' (calls (snd (ai_search quoting_env convo0 world0)) ! 5) \<and>
     uses_query quoting_env ''hi'' ''a'' (calls (snd (ai_search quoting_env convo0 world0)) ! 6)"
    unfolding ai_search_quoting_calls by simp
  then show ?thesis
    using h l by (simp add: ai_search_quoting_calls remove_double_quotes_quoted)
qed

text \<open>
  C8 as stated fails: the text \<^verbatim>\<open>query_generator\<close> returns is said to hold no double
  quote. A quoted reply is returned with its quotes, and so is a quoted user message when
  the call fails.
\<close>

theorem query_generator_keeps_quotes_counterexample:
  "fst (query_generator (fixed_env quoted_a [] None) convo0 world0) = Returns quoted_a \<and>
   fst (query_generator offline_env [assistant_agent, user_message quoted_a] world0) = Returns quoted_a \<and>
   CHR 0x22 \<in> set quoted_a"
  by (simp add: query_generator_quoted)
     (simp add: query_generator_def last_content_def do_chat_def offline_env_def fixed_env_def
      user_message_def quoted_a_def)

section \<open>The turn of the interactive loop that searches\<close>











end
